theory Spec2Isabelle
  imports Complex_Main
begin

section \<open>Numbers\<close>

text \<open>
  The toolkit computes with numpy's \<^verbatim>\<open>float64\<close>.  A value is a finite number, one of
  the two infinities, or NaN.  Finite values are exact reals here: rounding and overflow
  are not modelled, and zero carries no sign (a nonzero number divided by zero takes the
  sign of the numerator).  The special values follow IEEE 754: numpy returns them from a
  division by zero (with a warning) and does not raise.
\<close>

datatype float64 = Fin real | PInf | NInf | NaN

definition inf_sign :: "real \<Rightarrow> float64" where
  "inf_sign r = (if r = 0 then NaN else if 0 < r then PInf else NInf)"

fun fneg :: "float64 \<Rightarrow> float64" where
  "fneg (Fin x) = Fin (- x)"
| "fneg PInf = NInf"
| "fneg NInf = PInf"
| "fneg NaN = NaN"

fun fadd :: "float64 \<Rightarrow> float64 \<Rightarrow> float64" where
  "fadd (Fin x) (Fin y) = Fin (x + y)"
| "fadd NaN _ = NaN"
| "fadd _ NaN = NaN"
| "fadd PInf NInf = NaN"
| "fadd NInf PInf = NaN"
| "fadd PInf _ = PInf"
| "fadd _ PInf = PInf"
| "fadd NInf _ = NInf"
| "fadd _ NInf = NInf"

definition fsub :: "float64 \<Rightarrow> float64 \<Rightarrow> float64" where
  "fsub a b = fadd a (fneg b)"

fun fmul :: "float64 \<Rightarrow> float64 \<Rightarrow> float64" where
  "fmul (Fin x) (Fin y) = Fin (x * y)"
| "fmul NaN _ = NaN"
| "fmul _ NaN = NaN"
| "fmul (Fin x) PInf = inf_sign x"
| "fmul (Fin x) NInf = inf_sign (- x)"
| "fmul PInf (Fin y) = inf_sign y"
| "fmul NInf (Fin y) = inf_sign (- y)"
| "fmul PInf PInf = PInf"
| "fmul NInf NInf = PInf"
| "fmul PInf NInf = NInf"
| "fmul NInf PInf = NInf"

fun fdiv :: "float64 \<Rightarrow> float64 \<Rightarrow> float64" where
  "fdiv (Fin x) (Fin y) = (if y = 0 then inf_sign x else Fin (x / y))"
| "fdiv NaN _ = NaN"
| "fdiv _ NaN = NaN"
| "fdiv (Fin x) PInf = Fin 0"
| "fdiv (Fin x) NInf = Fin 0"
| "fdiv PInf (Fin y) = (if y < 0 then NInf else PInf)"
| "fdiv NInf (Fin y) = (if y < 0 then PInf else NInf)"
| "fdiv PInf PInf = NaN"
| "fdiv PInf NInf = NaN"
| "fdiv NInf PInf = NaN"
| "fdiv NInf NInf = NaN"

fun fsqrt :: "float64 \<Rightarrow> float64" where
  "fsqrt (Fin x) = (if x < 0 then NaN else Fin (sqrt x))"
| "fsqrt PInf = PInf"
| "fsqrt NInf = NaN"
| "fsqrt NaN = NaN"

text \<open>Comparisons: every comparison with NaN is false.\<close>

fun flt :: "float64 \<Rightarrow> float64 \<Rightarrow> bool" where
  "flt (Fin x) (Fin y) = (x < y)"
| "flt NaN _ = False"
| "flt _ NaN = False"
| "flt PInf _ = False"
| "flt _ NInf = False"
| "flt _ PInf = True"
| "flt NInf _ = True"

fun fle :: "float64 \<Rightarrow> float64 \<Rightarrow> bool" where
  "fle (Fin x) (Fin y) = (x \<le> y)"
| "fle NaN _ = False"
| "fle _ NaN = False"
| "fle NInf _ = True"
| "fle _ PInf = True"
| "fle PInf _ = False"
| "fle _ NInf = False"

fun is_fin :: "float64 \<Rightarrow> bool" where
  "is_fin (Fin x) = True"
| "is_fin _ = False"

text \<open>\<^verbatim>\<open>np.square\<close>.\<close>

definition square :: "float64 \<Rightarrow> float64" where
  "square a = fmul a a"


section \<open>Arrays\<close>

text \<open>
  A one-dimensional array is a list of numbers; a two-dimensional array is the list of
  its rows together with its number of columns, which \<^verbatim>\<open>np.shape\<close> reports
  also when there is no row.
\<close>

type_synonym vector = "float64 list"

datatype matrix = Matrix (ncols: nat) (rows: "vector list")

definition wf_matrix :: "matrix \<Rightarrow> bool" where
  "wf_matrix X = list_all (\<lambda>r. length r = ncols X) (rows X)"

definition shape :: "matrix \<Rightarrow> nat \<times> nat" where
  "shape X = (length (rows X), ncols X)"

text \<open>\<^verbatim>\<open>X[i,:]\<close> and \<^verbatim>\<open>X[:,j]\<close>.\<close>

definition row :: "matrix \<Rightarrow> nat \<Rightarrow> vector" where
  "row X i = rows X ! i"

definition col :: "matrix \<Rightarrow> nat \<Rightarrow> vector" where
  "col X j = map (\<lambda>r. r ! j) (rows X)"

definition fsum :: "vector \<Rightarrow> float64" where
  "fsum v = foldl fadd (Fin 0) v"

text \<open>\<^verbatim>\<open>np.dot\<close> of two one-dimensional arrays of one length (numpy raises
  \<^verbatim>\<open>ValueError\<close> otherwise; the callers below check the lengths where they can differ).\<close>

definition dot :: "vector \<Rightarrow> vector \<Rightarrow> float64" where
  "dot u v = fsum (map2 fmul u v)"

text \<open>\<^verbatim>\<open>np.mean\<close>: the sum divided by the count; NaN for an empty array.\<close>

definition mean :: "vector \<Rightarrow> float64" where
  "mean v = fdiv (fsum v) (Fin (real (length v)))"

definition vsub :: "vector \<Rightarrow> vector \<Rightarrow> vector" where
  "vsub u v = map2 fsub u v"

text \<open>A vector times a scalar (\<^verbatim>\<open>ti*p\<close>, \<^verbatim>\<open>p*tt\<close>).\<close>

definition smul :: "float64 \<Rightarrow> vector \<Rightarrow> vector" where
  "smul k v = map (\<lambda>e. fmul k e) v"

text \<open>
  The in-place subtraction \<^verbatim>\<open>x -= m\<close> of one-dimensional arrays: element by element
  when the lengths agree, the single element of \<open>m\<close> from every entry when \<open>m\<close> has
  length one (broadcasting), and no result (numpy raises \<^verbatim>\<open>ValueError\<close>) otherwise.
\<close>

definition bsub :: "vector \<Rightarrow> vector \<Rightarrow> vector" where
  "bsub x m = (if length m = length x then vsub x m else map (\<lambda>e. fsub e (hd m)) x)"

definition isub :: "vector \<Rightarrow> vector \<Rightarrow> vector option" where
  "isub x m = (if length m = length x \<or> length m = 1 then Some (bsub x m) else None)"

text \<open>\<^verbatim>\<open>np.zeros(n)\<close>.\<close>

definition zeros :: "nat \<Rightarrow> vector" where
  "zeros n = replicate n (Fin 0)"

section \<open>The store\<close>

text \<open>
  Python passes arrays by reference and several statements of the toolkit update an array
  in place (\<^verbatim>\<open>x -= ...\<close>, \<^verbatim>\<open>X[i,:] -= ...\<close>, \<^verbatim>\<open>Y[i] -= ...\<close>).  An array that the caller
  supplies, or that the code updates in place, therefore lives in a store and is named by
  its address; allocation appends a cell.  Arrays that are created once and never written
  again (the per-LV results, the means) are held by value.
\<close>

record store =
  mats :: "matrix list"
  vecs :: "vector list"

definition alloc_mat :: "store \<Rightarrow> matrix \<Rightarrow> store \<times> nat" where
  "alloc_mat s X = (s\<lparr>mats := mats s @ [X]\<rparr>, length (mats s))"

definition alloc_vec :: "store \<Rightarrow> vector \<Rightarrow> store \<times> nat" where
  "alloc_vec s v = (s\<lparr>vecs := vecs s @ [v]\<rparr>, length (vecs s))"

section \<open>The model object\<close>

datatype error = ZeroDivisionError | ValueError | IndexError | TypeError | AttributeError | IOError

text \<open>
  \<^verbatim>\<open>self.SSY\<close> starts as a Python list and \<^verbatim>\<open>validateLOO\<close> replaces it by a numpy
  array; the difference shows when \<^verbatim>\<open>loadModel\<close> appends to it, since an array has no
  \<^verbatim>\<open>append\<close>.
\<close>

datatype pyseq = PyList vector | NdArray vector

fun seq_items :: "pyseq \<Rightarrow> vector" where
  "seq_items (PyList v) = v"
| "seq_items (NdArray v) = v"

text \<open>
  The fields of class \<^verbatim>\<open>pls\<close>.  \<open>self_X\<close> and \<open>self_Y\<close> hold the addresses of the
  caller's training arrays (\<^verbatim>\<open>self.X = X\<close> copies nothing); \<open>None\<close> is Python's
  \<^verbatim>\<open>None\<close>.
\<close>

record pls =
  self_X :: "nat option"
  self_Y :: "nat option"
  self_Am :: int
  self_Av :: int
  self_nobj :: int
  self_nvarx :: int
  self_mux :: "vector option"
  self_muy :: "float64 option"
  self_t :: "vector list"
  self_p :: "vector list"
  self_w :: "vector list"
  self_c :: "float64 list"
  self_SSXex :: "float64 list"
  self_SSXac :: "float64 list"
  self_SSYex :: "float64 list"
  self_SSYac :: "float64 list"
  self_SDEC :: "float64 list"
  self_dmodx :: "vector list"
  self_SSY :: pyseq
  self_SDEP :: "float64 list"
  self_Q2 :: "float64 list"

text \<open>\<^verbatim>\<open>__init__\<close>.\<close>

definition init :: pls where
  "init = \<lparr>self_X = None, self_Y = None, self_Am = 0, self_Av = 0, self_nobj = 0,
     self_nvarx = 0, self_mux = None, self_muy = None, self_t = [], self_p = [],
     self_w = [], self_c = [], self_SSXex = [], self_SSXac = [], self_SSYex = [],
     self_SSYac = [], self_SDEC = [], self_dmodx = [], self_SSY = PyList [], self_SDEP = [],
     self_Q2 = []\<rparr>"

section \<open>Centering, extraction, sums of squares, deflation\<close>

text \<open>\<^verbatim>\<open>center\<close> on a two-dimensional array: the column means, and a fresh array of the
  rows minus the means.\<close>

definition center :: "matrix \<Rightarrow> matrix \<times> vector" where
  "center X =
     (let mu = map (\<lambda>j. mean (col X j)) [0..<ncols X]
      in (Matrix (ncols X) (map (\<lambda>r. vsub r mu) (rows X)), mu))"

text \<open>\<^verbatim>\<open>center\<close> on a one-dimensional array: the mean is a scalar.\<close>

definition center1 :: "vector \<Rightarrow> vector \<times> float64" where
  "center1 Y = (let mu = mean Y in (map (\<lambda>y. fsub y mu) Y, mu))"

text \<open>\<^verbatim>\<open>extractLV\<close> reads \<open>X\<close> and \<open>Y\<close> and returns four fresh values.\<close>

definition extractLV :: "matrix \<Rightarrow> vector \<Rightarrow> vector \<times> vector \<times> vector \<times> float64" where
  "extractLV X Y =
     (let (nobj, nvarx) = shape X;
          uu = dot Y Y;
          w = map (\<lambda>j. fdiv (dot Y (col X j)) uu) [0..<nvarx];
          ww = fsqrt (dot w w);
          w = map (\<lambda>e. fdiv e ww) w;
          t = map (\<lambda>i. dot w (row X i)) [0..<nobj];
          tt = dot t t;
          p = map (\<lambda>j. fdiv (dot t (col X j)) tt) [0..<nvarx];
          c = fdiv (dot t Y) tt
      in (t, p, w, c))"

text \<open>\<^verbatim>\<open>computeSS\<close>: the sums of squares of \<open>X\<close> and \<open>Y\<close>, and the sum of squares of
  every row of \<open>X\<close>.\<close>

definition computeSS :: "matrix \<Rightarrow> vector \<Rightarrow> float64 \<times> float64 \<times> vector" where
  "computeSS X Y =
     (let (nobj, nvarx) = shape X;
          SSX = foldl (\<lambda>acc i. fadd acc (dot (row X i) (row X i))) (Fin 0) [0..<nobj];
          SSY = foldl (\<lambda>acc i. fadd acc (square (Y ! i))) (Fin 0) [0..<nobj];
          d = map (\<lambda>i. dot (row X i) (row X i)) [0..<nobj]
      in (SSX, SSY, d))"

text \<open>\<^verbatim>\<open>deflateLV\<close> updates the arrays at the addresses \<open>X\<close> and \<open>Y\<close> in place, one
  observation after the other.\<close>

definition deflate_row :: "vector \<Rightarrow> vector \<Rightarrow> float64 \<Rightarrow> store \<Rightarrow> nat \<Rightarrow> nat \<Rightarrow> nat \<Rightarrow> store" where
  "deflate_row t p c s X Y i =
     (let ti = t ! i;
          Xm = mats s ! X;
          s = s\<lparr>mats := (mats s)[X := Matrix (ncols Xm) ((rows Xm)[i := vsub (row Xm i) (smul ti p)])]\<rparr>;
          Yv = vecs s ! Y
      in s\<lparr>vecs := (vecs s)[Y := Yv[i := fsub (Yv ! i) (fmul ti c)]]\<rparr>)"

definition deflateLV :: "store \<Rightarrow> nat \<Rightarrow> nat \<Rightarrow> vector \<Rightarrow> vector \<Rightarrow> float64 \<Rightarrow> store" where
  "deflateLV s X Y t p c =
     (let (nobj, nvarx) = shape (mats s ! X)
      in foldl (\<lambda>s i. deflate_row t p c s X Y i) s [0..<nobj])"



section \<open>Fitting\<close>

text \<open>The local variables of \<^verbatim>\<open>build\<close> that change from one pass of the loop to the
  next.\<close>

record build_locals =
  l_SSXac :: float64
  l_SSYac :: float64
  l_SSXold :: float64
  l_SSYold :: float64
  l_a :: int

text \<open>
  The body of the \<^verbatim>\<open>while\<close> loop up to \<^verbatim>\<open>a+=1\<close>.  \<open>X\<close> and \<open>Y\<close> are the addresses
  of the centered working arrays.  With no observation \<^verbatim>\<open>computeSS\<close> returns the Python
  floats \<^verbatim>\<open>0.0\<close> it started with, and Python's own division raises
  \<^verbatim>\<open>ZeroDivisionError\<close> on \<^verbatim>\<open>(SSXold-SSXnew)/SSX0\<close>; with an observation the sums are
  numpy scalars, whose division by zero gives NaN or an infinity.
\<close>

definition build_body ::
  "nat \<Rightarrow> nat \<Rightarrow> nat \<Rightarrow> nat \<Rightarrow> float64 \<Rightarrow> float64 \<Rightarrow> pls \<Rightarrow> store \<Rightarrow> build_locals
     \<Rightarrow> (error + build_locals) \<times> pls \<times> store" where
  "build_body X Y nobj nvarx SSX0 SSY0 self s l =
     (let (t, p, w, c) = extractLV (mats s ! X) (vecs s ! Y);
          self = self\<lparr>self_t := self_t self @ [t]\<rparr>;
          self = self\<lparr>self_p := self_p self @ [p]\<rparr>;
          self = self\<lparr>self_w := self_w self @ [w]\<rparr>;
          self = self\<lparr>self_c := self_c self @ [c]\<rparr>;
          s = deflateLV s X Y t p c;
          (SSXnew, SSYnew, dmodx) = computeSS (mats s ! X) (vecs s ! Y)
      in if nobj = 0 then (Inl ZeroDivisionError, self, s)
      else
        let SSXex = fdiv (fsub (l_SSXold l) SSXnew) SSX0;
            SSXac = fadd (l_SSXac l) SSXex;
            SSYex = fdiv (fsub (l_SSYold l) SSYnew) SSY0;
            SSYac = fadd (l_SSYac l) SSYex;
            SDEC = fsqrt (fdiv SSYnew (Fin (real nobj)));
            dof = int nvarx - l_a l;
            dof = (if dof \<le> 0 then 1 else dof);
            dmodx = map (\<lambda>d. fsqrt (fdiv d (Fin (real_of_int dof)))) dmodx;
            self = self\<lparr>self_SSXex := self_SSXex self @ [SSXex]\<rparr>;
            self = self\<lparr>self_SSXac := self_SSXac self @ [SSXac]\<rparr>;
            self = self\<lparr>self_SSYex := self_SSYex self @ [SSYex]\<rparr>;
            self = self\<lparr>self_SSYac := self_SSYac self @ [SSYac]\<rparr>;
            self = self\<lparr>self_SDEC := self_SDEC self @ [SDEC]\<rparr>;
            self = self\<lparr>self_dmodx := self_dmodx self @ [dmodx]\<rparr>
        in (Inr \<lparr>l_SSXac = SSXac, l_SSYac = SSYac, l_SSXold = SSXnew, l_SSYold = SSYnew,
                  l_a = l_a l + 1\<rparr>, self, s))"

text \<open>
  The \<^verbatim>\<open>while True\<close> loop with its two \<^verbatim>\<open>break\<close>s.  It need not end (both targets at
  zero), so it runs on fuel: \<open>None\<close> is a loop that has not stopped within \<open>fuel\<close> passes.
\<close>

fun build_loop ::
  "nat \<Rightarrow> nat \<Rightarrow> nat \<Rightarrow> nat \<Rightarrow> nat \<Rightarrow> float64 \<Rightarrow> float64 \<Rightarrow> int \<Rightarrow> float64 \<Rightarrow> pls \<Rightarrow> store
     \<Rightarrow> build_locals \<Rightarrow> ((error + build_locals) \<times> pls \<times> store) option" where
  "build_loop 0 X Y nobj nvarx SSX0 SSY0 targetA targetSSX self s l = None"
| "build_loop (Suc fuel) X Y nobj nvarx SSX0 SSY0 targetA targetSSX self s l =
     (case build_body X Y nobj nvarx SSX0 SSY0 self s l of
        (Inl e, self, s) \<Rightarrow> Some (Inl e, self, s)
      | (Inr l, self, s) \<Rightarrow>
          if 0 < targetA \<and> l_a l = targetA then Some (Inr l, self, s)
          else if flt (Fin 0) targetSSX \<and> flt targetSSX (l_SSXac l) then Some (Inr l, self, s)
          else build_loop fuel X Y nobj nvarx SSX0 SSY0 targetA targetSSX self s l)"

text \<open>
  \<^verbatim>\<open>build\<close>.  \<open>X\<close> and \<open>Y\<close> are the addresses of the caller's arrays.  A response whose
  length is not the number of observations makes numpy raise before the loop: an
  \<^verbatim>\<open>IndexError\<close> in \<^verbatim>\<open>computeSS\<close> when it is shorter, a \<^verbatim>\<open>ValueError\<close> in the first dot
  product of \<^verbatim>\<open>extractLV\<close> when it is longer.
\<close>

definition build ::
  "nat \<Rightarrow> pls \<Rightarrow> store \<Rightarrow> nat \<Rightarrow> nat \<Rightarrow> int \<Rightarrow> float64 \<Rightarrow> ((error + unit) \<times> pls \<times> store) option" where
  "build fuel self s X Y targetA targetSSX =
     (let (nobj, nvarx) = shape (mats s ! X);
          self = self\<lparr>self_nobj := int nobj\<rparr>;
          self = self\<lparr>self_nvarx := int nvarx\<rparr>;
          self = self\<lparr>self_X := Some X\<rparr>;
          self = self\<lparr>self_Y := Some Y\<rparr>;
          (Xc, mux) = center (mats s ! X);
          (s, Xa) = alloc_mat s Xc;
          (Yc, muy) = center1 (vecs s ! Y);
          (s, Ya) = alloc_vec s Yc;
          self = self\<lparr>self_mux := Some mux\<rparr>;
          self = self\<lparr>self_muy := Some muy\<rparr>
      in if length (vecs s ! Y) < nobj then Some (Inl IndexError, self, s)
      else if length (vecs s ! Y) \<noteq> nobj then Some (Inl ValueError, self, s)
      else
        let (SSX0, SSY0, null) = computeSS (mats s ! Xa) (vecs s ! Ya)
        in (case build_loop fuel Xa Ya nobj nvarx SSX0 SSY0 targetA targetSSX self s
                   \<lparr>l_SSXac = Fin 0, l_SSYac = Fin 0, l_SSXold = SSX0, l_SSYold = SSY0, l_a = 0\<rparr> of
              None \<Rightarrow> None
            | Some (Inl e, self, s) \<Rightarrow> Some (Inl e, self, s)
            | Some (Inr l, self, s) \<Rightarrow> Some (Inr (), self\<lparr>self_Am := l_a l\<rparr>, s)))"

section \<open>Leave-one-out validation\<close>

text \<open>
  \<^verbatim>\<open>getLOO\<close>: \<open>X\<close>, \<open>Y\<close> and \<open>x\<close> are addresses, all three arrays are updated in
  place.  \<^verbatim>\<open>validateLOO\<close> calls it after \<^verbatim>\<open>np.zeros(A)\<close> has accepted \<open>A\<close>, so \<open>A\<close>
  is a natural number here.
\<close>

fun getLOO_loop :: "nat \<Rightarrow> nat \<Rightarrow> nat \<Rightarrow> nat list \<Rightarrow> store \<Rightarrow> vector \<Rightarrow> vector \<times> store" where
  "getLOO_loop X Y x [] s y = (y, s)"
| "getLOO_loop X Y x (a # as) s y =
     (let (t, p, w, c) = extractLV (mats s ! X) (vecs s ! Y);
          y = (if 0 < a then y[a := y ! (a - 1)] else y);
          tt = dot (vecs s ! x) w;
          y = y[a := fadd (y ! a) (fmul tt c)];
          s = s\<lparr>vecs := (vecs s)[x := vsub (vecs s ! x) (smul tt p)]\<rparr>;
          s = deflateLV s X Y t p c
      in getLOO_loop X Y x as s y)"

definition getLOO :: "store \<Rightarrow> nat \<Rightarrow> nat \<Rightarrow> nat \<Rightarrow> nat \<Rightarrow> vector \<times> store" where
  "getLOO s X Y x A = getLOO_loop X Y x [0..<A] s (zeros A)"

text \<open>\<^verbatim>\<open>np.delete\<close> returns a new array without the entry (the row) \<open>i\<close>.\<close>

definition delete :: "'a list \<Rightarrow> nat \<Rightarrow> 'a list" where
  "delete xs i = take i xs @ drop (Suc i) xs"

text \<open>One pass of the loop over the observations: the fold of observation \<open>i\<close>.\<close>

definition loo_fold :: "nat \<Rightarrow> nat \<Rightarrow> nat \<Rightarrow> store \<times> vector \<Rightarrow> nat \<Rightarrow> store \<times> vector" where
  "loo_fold X Y A acc i =
     (let (s, SSY) = acc;
          Xr = Matrix (ncols (mats s ! X)) (delete (rows (mats s ! X)) i);
          Yr = delete (vecs s ! Y) i;
          (Xr, muxr) = center Xr;
          (s, Xr) = alloc_mat s Xr;
          (Yr, muyr) = center1 Yr;
          (s, Yr) = alloc_vec s Yr;
          (s, xp) = alloc_vec s (row (mats s ! X) i);
          s = s\<lparr>vecs := (vecs s)[xp := vsub (vecs s ! xp) muxr]\<rparr>;
          (yp, s) = getLOO s Xr Yr xp A;
          yp = map (\<lambda>e. fadd e muyr) yp;
          SSY = foldl (\<lambda>SSY a. SSY[a := fadd (SSY ! a) (square (fsub (yp ! a) (vecs s ! Y ! i)))])
                  SSY [0..<A]
      in (s, SSY))"

text \<open>
  \<^verbatim>\<open>validateLOO\<close>.  Without stored training data it returns at once.  A stored response
  shorter than the number of observations raises \<^verbatim>\<open>IndexError\<close> in the first loop, a
  negative \<open>A\<close> raises \<^verbatim>\<open>ValueError\<close> in \<^verbatim>\<open>np.zeros\<close>, and a longer response raises
  \<^verbatim>\<open>ValueError\<close> in the first dot product of the first fold; all three before the
  object is written (the arrays a fold allocated before raising are unreachable, and the
  store is returned without them).
\<close>

definition validateLOO :: "pls \<Rightarrow> store \<Rightarrow> int \<Rightarrow> (error + unit) \<times> pls \<times> store" where
  "validateLOO self s A =
     (case (self_X self, self_Y self) of
        (Some X, Some Y) \<Rightarrow>
          let (nobj, nvarx) = shape (mats s ! X)
          in if length (vecs s ! Y) < nobj then (Inl IndexError, self, s)
          else
            let SSY0 = foldl (\<lambda>acc i. fadd acc (square (fsub (vecs s ! Y ! i) (mean (vecs s ! Y)))))
                         (Fin 0) [0..<nobj]
            in if A < 0 then (Inl ValueError, self, s)
            else if length (vecs s ! Y) \<noteq> nobj \<and> 0 < A \<and> 0 < nobj then (Inl ValueError, self, s)
            else
              let (s, SSY) = foldl (loo_fold X Y (nat A)) (s, zeros (nat A)) [0..<nobj];
                  self = self\<lparr>self_SSY := NdArray SSY\<rparr>;
                  self = self\<lparr>self_SDEP := map (\<lambda>i. fsqrt (fdiv i (Fin (real nobj)))) SSY\<rparr>;
                  self = self\<lparr>self_Q2 := map (\<lambda>i. fsub (Fin 1) (fdiv i SSY0)) SSY\<rparr>;
                  self = self\<lparr>self_Av := A\<rparr>
              in (Inr (), self, s)
      | _ \<Rightarrow> (Inr (), self, s))"
section \<open>Projection\<close>

text \<open>
  \<^verbatim>\<open>project\<close> returns \<^verbatim>\<open>(False, 'Too many LV')\<close> or \<^verbatim>\<open>(True, (y, t, d))\<close>; the first
  is \<open>Inl\<close> of the message, the second \<open>Inr\<close> of the three sequences.  An exception
  is the outer \<open>Inl\<close>.  \<open>x\<close> is the address of the caller's array, so the store that
  \<^verbatim>\<open>project\<close> leaves is part of its result.
\<close>

type_synonym projection = "vector \<times> vector \<times> vector"

text \<open>One pass of the loop body for every index of the list, in order.  Indexing one of
  the model's lists beyond its end raises \<^verbatim>\<open>IndexError\<close>, a dot product or an in-place
  subtraction of arrays whose lengths do not fit raises \<^verbatim>\<open>ValueError\<close>.\<close>

fun project_loop :: "pls \<Rightarrow> nat \<Rightarrow> nat list \<Rightarrow> store \<Rightarrow> projection \<Rightarrow> (error + projection) \<times> store" where
  "project_loop self x [] s ytd = (Inr ytd, s)"
| "project_loop self x (a # as) s (y, t, d) =
     (if length (self_w self) \<le> a then (Inl IndexError, s)
      else if length (vecs s ! x) \<noteq> length (self_w self ! a) then (Inl ValueError, s)
      else
        let t = t[a := dot (vecs s ! x) (self_w self ! a)]
        in if length (self_c self) \<le> a then (Inl IndexError, s)
        else
          let y = y[a := fadd (y ! a) (fmul (t ! a) (self_c self ! a))]
          in if length (self_p self) \<le> a then (Inl IndexError, s)
          else
            (case isub (vecs s ! x) (smul (t ! a) (self_p self ! a)) of
               None \<Rightarrow> (Inl ValueError, s)
             | Some x' \<Rightarrow>
                 let s = s\<lparr>vecs := (vecs s)[x := x']\<rparr>;
                     dof = self_nvarx self - int a;
                     dof = (if dof \<le> 0 then 1 else dof);
                     d = d[a := fsqrt (fdiv (dot (vecs s ! x) (vecs s ! x)) (Fin (real_of_int dof)))]
                 in project_loop self x as s (y, t, d)))"

definition project :: "pls \<Rightarrow> store \<Rightarrow> nat \<Rightarrow> int \<Rightarrow> (error + string + projection) \<times> store" where
  "project self s x A =
     (if self_Am self < A then (Inr (Inl ''Too many LV''), s)
      else
        (case self_mux self of
           None \<Rightarrow> (Inl TypeError, s)
         | Some mux \<Rightarrow>
             (case isub (vecs s ! x) mux of
                None \<Rightarrow> (Inl ValueError, s)
              | Some x' \<Rightarrow>
                  let s = s\<lparr>vecs := (vecs s)[x := x']\<rparr>
                  in if A < 0 then (Inl ValueError, s)
                  else
                    (case project_loop self x [0..<nat A] s (zeros (nat A), zeros (nat A), zeros (nat A)) of
                       (Inl e, s) \<Rightarrow> (Inl e, s)
                     | (Inr (y, t, d), s) \<Rightarrow>
                         (case self_muy self of
                            None \<Rightarrow> (Inl TypeError, s)
                          | Some muy \<Rightarrow> (Inr (Inr (map (\<lambda>e. fadd e muy) y, t, d)), s))))))"


section \<open>Saving and loading\<close>

text \<open>
  The file is the sequence of the arrays that \<^verbatim>\<open>np.save\<close> wrote, in order: an integer, a
  number, a one-dimensional array, or \<^verbatim>\<open>None\<close> (what an object never fitted holds in
  \<^verbatim>\<open>mux\<close> and \<^verbatim>\<open>muy\<close>).  Opening the file is not modelled.
\<close>

datatype item = IInt int | IFloat float64 | IVec vector | INone

definition idx :: "'a list \<Rightarrow> nat \<Rightarrow> 'a option" where
  "idx xs a = (if a < length xs then Some (xs ! a) else None)"

text \<open>Writing a run of values: \<open>None\<close> stands for an index beyond the end of its list,
  which raises \<^verbatim>\<open>IndexError\<close> after the values before it were written.\<close>

fun save_items :: "item option list \<Rightarrow> item list \<Rightarrow> (error + unit) \<times> item list" where
  "save_items [] f = (Inr (), f)"
| "save_items (None # r) f = (Inl IndexError, f)"
| "save_items (Some i # r) f = save_items r (f @ [i])"

fun save_blocks :: "(nat \<Rightarrow> item option list) \<Rightarrow> nat list \<Rightarrow> item list \<Rightarrow> (error + unit) \<times> item list" where
  "save_blocks blk [] f = (Inr (), f)"
| "save_blocks blk (a # as) f =
     (case save_items (blk a) f of
        (Inl e, f) \<Rightarrow> (Inl e, f)
      | (Inr u, f) \<Rightarrow> save_blocks blk as f)"

definition lv_block :: "pls \<Rightarrow> nat \<Rightarrow> item option list" where
  "lv_block self a =
     [map_option IVec (idx (self_t self) a),
      map_option IVec (idx (self_p self) a),
      map_option IVec (idx (self_w self) a),
      map_option IFloat (idx (self_c self) a),
      map_option IFloat (idx (self_SSXex self) a),
      map_option IFloat (idx (self_SSXac self) a),
      map_option IFloat (idx (self_SSYex self) a),
      map_option IFloat (idx (self_SSYac self) a),
      map_option IFloat (idx (self_SDEC self) a),
      map_option IVec (idx (self_dmodx self) a)]"

definition cv_block :: "pls \<Rightarrow> nat \<Rightarrow> item option list" where
  "cv_block self a =
     [map_option IFloat (idx (seq_items (self_SSY self)) a),
      map_option IFloat (idx (self_SDEP self) a),
      map_option IFloat (idx (self_Q2 self) a)]"

definition header :: "pls \<Rightarrow> item list" where
  "header self =
     [IInt (self_Am self), IInt (self_Av self), IInt (self_nobj self), IInt (self_nvarx self),
      (case self_mux self of None \<Rightarrow> INone | Some v \<Rightarrow> IVec v),
      (case self_muy self of None \<Rightarrow> INone | Some m \<Rightarrow> IFloat m)]"

text \<open>\<^verbatim>\<open>saveModel\<close>: the outcome and what the file holds afterwards.\<close>

definition saveModel :: "pls \<Rightarrow> (error + unit) \<times> item list" where
  "saveModel self =
     (case save_blocks (lv_block self) [0..<nat (self_Am self)] (header self) of
        (Inl e, f) \<Rightarrow> (Inl e, f)
      | (Inr u, f) \<Rightarrow> save_blocks (cv_block self) [0..<nat (self_Av self)] f)"

text \<open>
  Reading.  Every \<^verbatim>\<open>np.load\<close> takes the next item, and the statement around it stores
  the item in a field or appends it to one; at the end of the file \<^verbatim>\<open>np.load\<close> raises
  (\<open>IOError\<close>).  A reader is the statement: first the place it writes to (for an
  \<^verbatim>\<open>append\<close>, Python looks the method up before it calls \<^verbatim>\<open>np.load\<close>), then what it
  does with the item.  The fields are typed here, so an item of a kind that the writer
  never puts in that place is reported at once as \<open>TypeError\<close>; Python would store it and
  fail at its first use.
\<close>

type_synonym reader = "pls \<Rightarrow> error + (item \<Rightarrow> error + pls)"

fun load_items :: "reader list \<Rightarrow> pls \<Rightarrow> item list \<Rightarrow> (error + unit) \<times> pls \<times> item list" where
  "load_items [] self f = (Inr (), self, f)"
| "load_items (r # rs) self f =
     (case r self of
        Inl e \<Rightarrow> (Inl e, self, f)
      | Inr put \<Rightarrow>
          (case f of
             [] \<Rightarrow> (Inl IOError, self, [])
           | i # f \<Rightarrow>
               (case put i of
                  Inl e \<Rightarrow> (Inl e, self, f)
                | Inr self \<Rightarrow> load_items rs self f)))"

fun load_blocks :: "reader list \<Rightarrow> nat \<Rightarrow> pls \<Rightarrow> item list \<Rightarrow> (error + unit) \<times> pls \<times> item list" where
  "load_blocks rs 0 self f = (Inr (), self, f)"
| "load_blocks rs (Suc n) self f =
     (case load_items rs self f of
        (Inl e, self, f) \<Rightarrow> (Inl e, self, f)
      | (Inr u, self, f) \<Rightarrow> load_blocks rs n self f)"

definition as_int :: "item \<Rightarrow> error + int" where
  "as_int i = (case i of IInt n \<Rightarrow> Inr n | _ \<Rightarrow> Inl TypeError)"

definition as_float :: "item \<Rightarrow> error + float64" where
  "as_float i = (case i of IFloat x \<Rightarrow> Inr x | _ \<Rightarrow> Inl TypeError)"

definition as_vec :: "item \<Rightarrow> error + vector" where
  "as_vec i = (case i of IVec v \<Rightarrow> Inr v | _ \<Rightarrow> Inl TypeError)"

definition header_readers :: "reader list" where
  "header_readers =
     [\<lambda>self. Inr (\<lambda>i. map_sum id (\<lambda>n. self\<lparr>self_Am := n\<rparr>) (as_int i)),
      \<lambda>self. Inr (\<lambda>i. map_sum id (\<lambda>n. self\<lparr>self_Av := n\<rparr>) (as_int i)),
      \<lambda>self. Inr (\<lambda>i. map_sum id (\<lambda>n. self\<lparr>self_nobj := n\<rparr>) (as_int i)),
      \<lambda>self. Inr (\<lambda>i. map_sum id (\<lambda>n. self\<lparr>self_nvarx := n\<rparr>) (as_int i)),
      \<lambda>self. Inr (\<lambda>i. case i of INone \<Rightarrow> Inr (self\<lparr>self_mux := None\<rparr>)
                 | IVec v \<Rightarrow> Inr (self\<lparr>self_mux := Some v\<rparr>) | _ \<Rightarrow> Inl TypeError),
      \<lambda>self. Inr (\<lambda>i. case i of INone \<Rightarrow> Inr (self\<lparr>self_muy := None\<rparr>)
                 | IFloat m \<Rightarrow> Inr (self\<lparr>self_muy := Some m\<rparr>) | _ \<Rightarrow> Inl TypeError)]"

definition lv_readers :: "reader list" where
  "lv_readers =
     [\<lambda>self. Inr (\<lambda>i. map_sum id (\<lambda>v. self\<lparr>self_t := self_t self @ [v]\<rparr>) (as_vec i)),
      \<lambda>self. Inr (\<lambda>i. map_sum id (\<lambda>v. self\<lparr>self_p := self_p self @ [v]\<rparr>) (as_vec i)),
      \<lambda>self. Inr (\<lambda>i. map_sum id (\<lambda>v. self\<lparr>self_w := self_w self @ [v]\<rparr>) (as_vec i)),
      \<lambda>self. Inr (\<lambda>i. map_sum id (\<lambda>x. self\<lparr>self_c := self_c self @ [x]\<rparr>) (as_float i)),
      \<lambda>self. Inr (\<lambda>i. map_sum id (\<lambda>x. self\<lparr>self_SSXex := self_SSXex self @ [x]\<rparr>) (as_float i)),
      \<lambda>self. Inr (\<lambda>i. map_sum id (\<lambda>x. self\<lparr>self_SSXac := self_SSXac self @ [x]\<rparr>) (as_float i)),
      \<lambda>self. Inr (\<lambda>i. map_sum id (\<lambda>x. self\<lparr>self_SSYex := self_SSYex self @ [x]\<rparr>) (as_float i)),
      \<lambda>self. Inr (\<lambda>i. map_sum id (\<lambda>x. self\<lparr>self_SSYac := self_SSYac self @ [x]\<rparr>) (as_float i)),
      \<lambda>self. Inr (\<lambda>i. map_sum id (\<lambda>x. self\<lparr>self_SDEC := self_SDEC self @ [x]\<rparr>) (as_float i)),
      \<lambda>self. Inr (\<lambda>i. map_sum id (\<lambda>v. self\<lparr>self_dmodx := self_dmodx self @ [v]\<rparr>) (as_vec i))]"

text \<open>\<^verbatim>\<open>self.SSY.append\<close> needs \<^verbatim>\<open>self.SSY\<close> to be a list still.\<close>

definition cv_readers :: "reader list" where
  "cv_readers =
     [\<lambda>self. (case self_SSY self of
                 NdArray v \<Rightarrow> Inl AttributeError
               | PyList v \<Rightarrow> Inr (\<lambda>i. map_sum id (\<lambda>x. self\<lparr>self_SSY := PyList (v @ [x])\<rparr>) (as_float i))),
      \<lambda>self. Inr (\<lambda>i. map_sum id (\<lambda>x. self\<lparr>self_SDEP := self_SDEP self @ [x]\<rparr>) (as_float i)),
      \<lambda>self. Inr (\<lambda>i. map_sum id (\<lambda>x. self\<lparr>self_Q2 := self_Q2 self @ [x]\<rparr>) (as_float i))]"

text \<open>\<^verbatim>\<open>loadModel\<close>: the outcome, the object, and what is left of the file.\<close>

definition loadModel :: "pls \<Rightarrow> item list \<Rightarrow> (error + unit) \<times> pls \<times> item list" where
  "loadModel self f =
     (case load_items header_readers self f of
        (Inl e, self, f) \<Rightarrow> (Inl e, self, f)
      | (Inr u, self, f) \<Rightarrow>
          (case load_blocks lv_readers (nat (self_Am self)) self f of
             (Inl e, self, f) \<Rightarrow> (Inl e, self, f)
           | (Inr u, self, f) \<Rightarrow> load_blocks cv_readers (nat (self_Av self)) self f))"

section \<open>Example data\<close>

text \<open>
  A training set of four observations of two variables whose fit stays within the
  rationals, the arrays the fit passes through, and the query vector (a copy of the first
  observation).  \<open>ex_Xc0\<close> and \<open>ex_Yc0\<close> are the centered arrays, \<open>ex_Xc1\<close> and
  \<open>ex_Yc1\<close> what the first deflation leaves, \<open>ex_Xc2\<close> and \<open>ex_Yc2\<close> what the second
  leaves.
\<close>

definition ex_X :: matrix where
  "ex_X = Matrix 2 [[Fin 2, Fin 1], [Fin 0, Fin 1], [Fin 1, Fin 3], [Fin 1, Fin (- 1)]]"

definition ex_Y :: vector where
  "ex_Y = [Fin 4, Fin (- 2), Fin 3, Fin (- 1)]"

definition ex_x :: vector where
  "ex_x = [Fin 2, Fin 1]"

definition ex_store :: store where
  "ex_store = \<lparr>mats = [ex_X], vecs = [ex_Y, ex_x]\<rparr>"

definition ex_Xc0 :: matrix where
  "ex_Xc0 = Matrix 2 [[Fin 1, Fin 0], [Fin (- 1), Fin 0], [Fin 0, Fin 2], [Fin 0, Fin (- 2)]]"

definition ex_Yc0 :: vector where
  "ex_Yc0 = [Fin 3, Fin (- 3), Fin 2, Fin (- 2)]"

definition ex_Xc1 :: matrix where
  "ex_Xc1 =
     Matrix 2 [[Fin (64 / 73), Fin (- (48 / 73))], [Fin (- (64 / 73)), Fin (48 / 73)],
               [Fin (- (24 / 73)), Fin (18 / 73)], [Fin (24 / 73), Fin (- (18 / 73))]]"

definition ex_Yc1 :: vector where
  "ex_Yc1 = [Fin (144 / 73), Fin (- (144 / 73)), Fin (- (54 / 73)), Fin (54 / 73)]"

definition ex_Xc2 :: matrix where
  "ex_Xc2 = Matrix 2 [[Fin 0, Fin 0], [Fin 0, Fin 0], [Fin 0, Fin 0], [Fin 0, Fin 0]]"

definition ex_Yc2 :: vector where
  "ex_Yc2 = [Fin 0, Fin 0, Fin 0, Fin 0]"

text \<open>The model that \<^verbatim>\<open>build(X, Y, targetA=2)\<close> leaves in a new object.\<close>

definition ex_model :: pls where
  "ex_model =
     \<lparr>self_X = Some 0, self_Y = Some 0, self_Am = 2, self_Av = 0, self_nobj = 4,
      self_nvarx = 2, self_mux = Some [Fin 1, Fin 1], self_muy = Some (Fin 1),
      self_t = [[Fin (3 / 5), Fin (- (3 / 5)), Fin (8 / 5), Fin (- (8 / 5))],
                [Fin (80 / 73), Fin (- (80 / 73)), Fin (- (30 / 73)), Fin (30 / 73)]],
      self_p = [[Fin (15 / 73), Fin (80 / 73)], [Fin (4 / 5), Fin (- (3 / 5))]],
      self_w = [[Fin (3 / 5), Fin (4 / 5)], [Fin (4 / 5), Fin (- (3 / 5))]],
      self_c = [Fin (125 / 73), Fin (9 / 5)],
      self_SSXex = [Fin (53 / 73), Fin (20 / 73)],
      self_SSXac = [Fin (53 / 73), Fin 1],
      self_SSYex = [Fin (625 / 949), Fin (324 / 949)],
      self_SSYac = [Fin (625 / 949), Fin 1],
      self_SDEC = [fsqrt (Fin (162 / 73)), Fin 0],
      self_dmodx = [[fsqrt (Fin (3200 / 5329)), fsqrt (Fin (3200 / 5329)),
                     fsqrt (Fin (450 / 5329)), fsqrt (Fin (450 / 5329))],
                    [Fin 0, Fin 0, Fin 0, Fin 0]],
      self_SSY = PyList [], self_SDEP = [], self_Q2 = []\<rparr>"

text \<open>The store after that call: the caller's arrays, and the two working arrays, fully
  deflated.\<close>

definition ex_store2 :: store where
  "ex_store2 = \<lparr>mats = [ex_X, ex_Xc2], vecs = [ex_Y, ex_x, ex_Yc2]\<rparr>"

text \<open>A response without variance, and an empty training set.\<close>

definition flat_store :: store where
  "flat_store = \<lparr>mats = [Matrix 1 [[Fin 1], [Fin 3]]], vecs = [[Fin 5, Fin 5]]\<rparr>"

definition empty_store :: store where
  "empty_store = \<lparr>mats = [Matrix 1 []], vecs = [[]]\<rparr>"

section \<open>Notions used to state the properties\<close>

text \<open>
  What the claim about the caller's vector says \<^verbatim>\<open>project\<close> leaves in it: the centered
  vector, deflated once for every latent variable in turn by its score (the dot product
  with the weight vector) times the loading vector.
\<close>

fun deflated :: "vector list \<Rightarrow> vector list \<Rightarrow> vector \<Rightarrow> vector" where
  "deflated (w # ws) (p # ps) v = deflated ws ps (bsub v (smul (dot v w) p))"
| "deflated ws ps v = v"

text \<open>Each of the ten per-LV lists of the object has \<open>n\<close> entries.\<close>

definition lv_count :: "pls \<Rightarrow> nat \<Rightarrow> bool" where
  "lv_count self n \<longleftrightarrow>
     length (self_t self) = n \<and> length (self_p self) = n \<and> length (self_w self) = n \<and>
     length (self_c self) = n \<and> length (self_SSXex self) = n \<and> length (self_SSXac self) = n \<and>
     length (self_SSYex self) = n \<and> length (self_SSYac self) = n \<and> length (self_SDEC self) = n \<and>
     length (self_dmodx self) = n"

text \<open>The store \<open>s'\<close> holds every array of \<open>s\<close> at its address, unchanged (and
  possibly more arrays after them).\<close>

definition extends :: "store \<Rightarrow> store \<Rightarrow> bool" where
  "extends s s' \<longleftrightarrow>
     take (length (mats s)) (mats s') = mats s \<and> take (length (vecs s)) (vecs s') = vecs s"

text \<open>A caller that calls \<^verbatim>\<open>validateLOO\<close> once for every entry of a list, whatever each call
  returns or raises.\<close>

fun validate_all :: "pls \<Rightarrow> store \<Rightarrow> int list \<Rightarrow> pls \<times> store" where
  "validate_all self s [] = (self, s)"
| "validate_all self s (A # As) =
     (case validateLOO self s A of (r, self, s) \<Rightarrow> validate_all self s As)"

text \<open>Each of the three cross-validation sequences has \<open>n\<close> entries.\<close>

definition cv_count :: "pls \<Rightarrow> nat \<Rightarrow> bool" where
  "cv_count self n \<longleftrightarrow>
     length (seq_items (self_SSY self)) = n \<and> length (self_SDEP self) = n \<and>
     length (self_Q2 self) = n"

text \<open>The counts \<open>Am\<close> and \<open>Av\<close> are the lengths of the lists they count.\<close>

definition consistent :: "pls \<Rightarrow> bool" where
  "consistent self \<longleftrightarrow>
     0 \<le> self_Am self \<and> lv_count self (nat (self_Am self)) \<and>
     0 \<le> self_Av self \<and> cv_count self (nat (self_Av self))"

text \<open>The items that \<^verbatim>\<open>saveModel\<close> writes for the latent variable \<open>a\<close>, and for the
  cross-validated latent variable \<open>a\<close>, when the lists reach that far.\<close>

definition lv_items :: "pls \<Rightarrow> nat \<Rightarrow> item list" where
  "lv_items self a = map the (lv_block self a)"

definition cv_items :: "pls \<Rightarrow> nat \<Rightarrow> item list" where
  "cv_items self a = map the (cv_block self a)"

section \<open>Evaluating the examples\<close>

lemmas ev = shape_def row_def col_def fsum_def dot_def mean_def vsub_def smul_def bsub_def isub_def zeros_def
  alloc_mat_def alloc_vec_def center_def center1_def extractLV_def computeSS_def deflate_row_def deflateLV_def
  fsub_def square_def inf_sign_def Let_def eval_nat_numeral

lemma ex_center: "center ex_X = (ex_Xc0, [Fin 1, Fin 1])"
  by (simp add: ev ex_X_def ex_Xc0_def)

lemma ex_center1: "center1 ex_Y = (ex_Yc0, Fin 1)"
  by (simp add: ev ex_Y_def ex_Yc0_def)

lemma ex_SS0: "computeSS ex_Xc0 ex_Yc0 = (Fin 10, Fin 26, [Fin 1, Fin 1, Fin 4, Fin 4])"
  by (simp add: ev ex_Xc0_def ex_Yc0_def)

lemma ex_extract1:
  "extractLV ex_Xc0 ex_Yc0 =
     ([Fin (3 / 5), Fin (- (3 / 5)), Fin (8 / 5), Fin (- (8 / 5))],
      [Fin (15 / 73), Fin (80 / 73)], [Fin (3 / 5), Fin (4 / 5)], Fin (125 / 73))"
  by (simp add: ev ex_Xc0_def ex_Yc0_def real_sqrt_divide)

lemma ex_deflate1:
  "deflateLV \<lparr>mats = [ex_X, ex_Xc0], vecs = [ex_Y, ex_x, ex_Yc0]\<rparr> (Suc 0) (Suc (Suc 0))
     [Fin (3 / 5), Fin (- (3 / 5)), Fin (8 / 5), Fin (- (8 / 5))]
     [Fin (15 / 73), Fin (80 / 73)] (Fin (125 / 73))
   = \<lparr>mats = [ex_X, ex_Xc1], vecs = [ex_Y, ex_x, ex_Yc1]\<rparr>"
  by (simp add: ev ex_Xc0_def ex_Yc0_def ex_Xc1_def ex_Yc1_def)

lemma ex_SS1:
  "computeSS ex_Xc1 ex_Yc1 =
     (Fin (200 / 73), Fin (648 / 73),
      [Fin (6400 / 5329), Fin (6400 / 5329), Fin (900 / 5329), Fin (900 / 5329)])"
  by (simp add: ev ex_Xc1_def ex_Yc1_def)

lemma ex_extract2:
  "extractLV ex_Xc1 ex_Yc1 =
     ([Fin (80 / 73), Fin (- (80 / 73)), Fin (- (30 / 73)), Fin (30 / 73)],
      [Fin (4 / 5), Fin (- (3 / 5))], [Fin (4 / 5), Fin (- (3 / 5))], Fin (9 / 5))"
  by (simp add: ev ex_Xc1_def ex_Yc1_def real_sqrt_divide)

lemma ex_deflate2:
  "deflateLV \<lparr>mats = [ex_X, ex_Xc1], vecs = [ex_Y, ex_x, ex_Yc1]\<rparr> (Suc 0) (Suc (Suc 0))
     [Fin (80 / 73), Fin (- (80 / 73)), Fin (- (30 / 73)), Fin (30 / 73)]
     [Fin (4 / 5), Fin (- (3 / 5))] (Fin (9 / 5))
   = \<lparr>mats = [ex_X, ex_Xc2], vecs = [ex_Y, ex_x, ex_Yc2]\<rparr>"
  by (simp add: ev ex_Xc1_def ex_Yc1_def ex_Xc2_def ex_Yc2_def)

lemma ex_SS2:
  "computeSS ex_Xc2 ex_Yc2 = (Fin 0, Fin 0, [Fin 0, Fin 0, Fin 0, Fin 0])"
  by (simp add: ev ex_Xc2_def ex_Yc2_def)

lemma ex_shape: "shape ex_X = (4, 2)" "length ex_Y = 4"
  by (simp_all add: shape_def ex_X_def ex_Y_def)

lemma ex_build: "build (Suc (Suc 0)) init ex_store 0 0 2 (Fin 0) = Some (Inr (), ex_model, ex_store2)"
  apply (simp add: build_def build_body_def ex_store_def ex_shape ex_center ex_center1 alloc_mat_def alloc_vec_def
      ex_SS0 ex_extract1 ex_deflate1 ex_SS1 ex_extract2 ex_deflate2 ex_SS2 init_def ex_model_def ex_store2_def Let_def fsub_def)
  done


lemma ex_project:
  "project ex_model ex_store2 (Suc 0) 2 =
     (Inr (Inr ([Fin (148 / 73), Fin (217 / 73)], [Fin (3 / 5), Fin (80 / 73)],
                [fsqrt (Fin (3200 / 5329)), Fin 0])),
      \<lparr>mats = [ex_X, ex_Xc2], vecs = [ex_Y, [Fin 0, Fin 0], ex_Yc2]\<rparr>)"
  by (simp add: project_def ex_model_def ex_store2_def ex_x_def ev upt_conv_Cons)

section \<open>Projection: the error path\<close>

text \<open>
  C2.  When the requested number of latent variables \<open>A\<close> exceeds the model
  dimensionality \<open>Am\<close>, \<^verbatim>\<open>project\<close> returns the failure outcome with the reason
  \<^verbatim>\<open>'Too many LV'\<close> and no result sequences, whatever the model and the input vector are:
  it does not clamp \<open>A\<close>, and it returns before it writes anything, so the store (the
  caller's vector included) is the one it was given; the model object is not written by
  \<^verbatim>\<open>project\<close> at all.
\<close>

theorem project_too_many_LV:
  "self_Am self < A \<Longrightarrow> project self s x A = (Inr (Inl ''Too many LV''), s)"
  by (simp add: project_def)


theorem project_too_many_LV_witness:
  "self_Am init < 1 \<and>
   project init \<lparr>mats = [], vecs = [[Fin 1, Fin 2]]\<rparr> 0 1
     = (Inr (Inl ''Too many LV''), \<lparr>mats = [], vecs = [[Fin 1, Fin 2]]\<rparr>)"
proof -
  have h: "self_Am init < 1" by (simp add: init_def)
  from project_too_many_LV [OF h] show ?thesis using h by simp
qed


section \<open>Projection: the caller's vector\<close>

lemma isub_Some: "isub x m = Some x' \<Longrightarrow> x' = bsub x m"
  by (simp add: isub_def split: if_splits)

lemma length_bsub [simp]: "length m = length x \<or> length m = 1 \<Longrightarrow> length (bsub x m) = length x"
  by (auto simp: bsub_def vsub_def)

lemma project_loop_store:
  "project_loop self x [k..<n] s (y, t, d) = (Inr r, s') \<Longrightarrow> x < length (vecs s) \<Longrightarrow> n \<le> length t \<Longrightarrow>
   vecs s' = (vecs s)[x := deflated (take (n - k) (drop k (self_w self))) (take (n - k) (drop k (self_p self))) (vecs s ! x)]
   \<and> mats s' = mats s"
proof (induction "n - k" arbitrary: k s y t d)
  case 0
  then show ?case by simp
next
  case (Suc m)
  then have kn: "k < n" and m: "m = n - Suc k" by arith+
  have tk: "\<And>v. t[k := v] ! k = v" using kn Suc.prems(3) by simp
  from kn have upt: "[k..<n] = k # [Suc k..<n]" by (simp add: upt_conv_Cons)
  let ?xv = "vecs s ! x"
  let ?ta = "dot ?xv (self_w self ! k)"
  from Suc.prems(1) have w: "k < length (self_w self)" and c: "k < length (self_c self)"
    and p: "k < length (self_p self)"
    unfolding upt by (auto simp: Let_def split: if_splits)
  from Suc.prems(1) w c p obtain x' where
    x': "isub ?xv (smul ?ta (self_p self ! k)) = Some x'"
    unfolding upt by (auto simp: Let_def tk split: if_splits option.splits)
  let ?s1 = "s\<lparr>vecs := (vecs s)[x := x']\<rparr>"
  from Suc.prems(1) w c p x' obtain y' t' d' where
    rec: "project_loop self x [Suc k..<n] ?s1 (y', t', d') = (Inr r, s')" and t': "length t' = length t"
    unfolding upt using Suc.prems(2) by (auto simp: Let_def tk split: if_splits)
  have x1: "x < length (vecs ?s1)" using Suc.prems(2) by simp
  have nt: "n \<le> length t'" using t' Suc.prems(3) by simp
  from Suc.hyps(1) [OF m rec x1 nt]
  have IH: "vecs s' = (vecs ?s1)[x := deflated (take (n - Suc k) (drop (Suc k) (self_w self)))
              (take (n - Suc k) (drop (Suc k) (self_p self))) (vecs ?s1 ! x)]"
    and mats: "mats s' = mats ?s1" by simp_all
  have dw: "take (n - k) (drop k (self_w self)) = self_w self ! k # take (n - Suc k) (drop (Suc k) (self_w self))"
    using w kn by (simp add: Cons_nth_drop_Suc [symmetric] take_Suc_Cons [symmetric] Suc_diff_Suc del: take_Suc_Cons)
  have dp: "take (n - k) (drop k (self_p self)) = self_p self ! k # take (n - Suc k) (drop (Suc k) (self_p self))"
    using p kn by (simp add: Cons_nth_drop_Suc [symmetric] take_Suc_Cons [symmetric] Suc_diff_Suc del: take_Suc_Cons)
  have xb: "x' = bsub ?xv (smul ?ta (self_p self ! k))" using x' by (rule isub_Some)
  show ?case using IH mats Suc.prems(2) by (simp add: dw dp xb)
qed


text \<open>
  C10.  A successful \<^verbatim>\<open>project(x, A)\<close> writes into the caller's array: the cell of the
  store that \<open>x\<close> names holds, on return, the \<open>mux\<close>-centered vector deflated by score
  times loading for each of the first \<open>A\<close> latent variables in turn, and no other cell
  changes.  (This holds for every \<open>A\<close> that succeeds, \<open>A = 0\<close> included, where only the
  centering is left in \<open>x\<close>.)
\<close>

theorem project_updates_x_in_place:
  assumes ok: "project self s x A = (Inr (Inr r), s')"
    and x: "x < length (vecs s)"
  shows "\<exists>mux. self_mux self = Some mux \<and>
           vecs s' = (vecs s)[x := deflated (take (nat A) (self_w self)) (take (nat A) (self_p self))
                                  (bsub (vecs s ! x) mux)] \<and>
           mats s' = mats s"
proof -
  from ok have A: "A \<le> self_Am self" by (auto simp: project_def split: if_splits)
  from ok A obtain mux where mux: "self_mux self = Some mux"
    by (auto simp: project_def split: option.splits)
  from ok A mux obtain x0 where x0: "isub (vecs s ! x) mux = Some x0"
    by (auto simp: project_def split: option.splits)
  let ?s0 = "s\<lparr>vecs := (vecs s)[x := x0]\<rparr>"
  from ok A mux x0 have A0: "0 \<le> A"
    by (auto simp: project_def Let_def split: if_splits)
  from ok A mux x0 A0 obtain r0 where
    loop: "project_loop self x [0..<nat A] ?s0 (zeros (nat A), zeros (nat A), zeros (nat A)) = (Inr r0, s')"
    by (auto simp: project_def Let_def split: if_splits prod.splits sum.splits option.splits)
  have x1: "x < length (vecs ?s0)" using x by simp
  have n: "nat A \<le> length (zeros (nat A))" by (simp add: zeros_def)
  from project_loop_store [OF loop x1 n] x
  have "vecs s' = (vecs s)[x := deflated (take (nat A) (self_w self)) (take (nat A) (self_p self)) x0]"
    and "mats s' = mats s"
    by simp_all
  moreover have "x0 = bsub (vecs s ! x) mux" using x0 by (rule isub_Some)
  ultimately show ?thesis using mux by simp
qed

theorem project_updates_x_in_place_witness:
  "project ex_model ex_store2 (Suc 0) 2 =
     (Inr (Inr ([Fin (148 / 73), Fin (217 / 73)], [Fin (3 / 5), Fin (80 / 73)],
                [fsqrt (Fin (3200 / 5329)), Fin 0])),
      \<lparr>mats = [ex_X, ex_Xc2], vecs = [ex_Y, [Fin 0, Fin 0], ex_Yc2]\<rparr>) \<and>
   Suc 0 < length (vecs ex_store2) \<and>
   vecs ex_store2 ! Suc 0 = [Fin 2, Fin 1] \<and>
   deflated (take (nat 2) (self_w ex_model)) (take (nat 2) (self_p ex_model))
     (bsub (vecs ex_store2 ! Suc 0) [Fin 1, Fin 1]) = [Fin 0, Fin 0]"
proof -
  have x: "Suc 0 < length (vecs ex_store2)" by (simp add: ex_store2_def)
  from project_updates_x_in_place [OF ex_project x]
  have "vecs \<lparr>mats = [ex_X, ex_Xc2], vecs = [ex_Y, [Fin 0, Fin 0], ex_Yc2]\<rparr> =
          (vecs ex_store2)[Suc 0 := deflated (take (nat 2) (self_w ex_model))
             (take (nat 2) (self_p ex_model)) (bsub (vecs ex_store2 ! Suc 0) [Fin 1, Fin 1])]"
    by (simp add: ex_model_def)
  then have "deflated (take (nat 2) (self_w ex_model)) (take (nat 2) (self_p ex_model))
               (bsub (vecs ex_store2 ! Suc 0) [Fin 1, Fin 1]) = [Fin 0, Fin 0]"
    by (simp add: ex_store2_def)
  then show ?thesis using ex_project x by (simp add: ex_store2_def ex_x_def)
qed

section \<open>Projection: the predicted responses\<close>

text \<open>
  C1.  The claim is that the predicted responses accumulate: the entry for \<open>a\<close> latent
  variables is \<open>muy\<close> plus the contributions \<open>score * c\<close> of the first \<open>a\<close> components.
  \<^verbatim>\<open>getLOO\<close> copies the previous entry before it adds (\<^verbatim>\<open>if a>0 : y[a]=y[a-1]\<close>);
  \<^verbatim>\<open>project\<close> does not, so each entry of its \<open>y\<close> holds \<open>muy\<close> plus the contribution of
  one component only.  On the model fitted to the example data with two latent
  variables, and the first training observation as query (response 4), \<^verbatim>\<open>project\<close>
  returns 148/73 and 217/73; the accumulated second entry would be
  \<open>1 + 3/5 * 125/73 + 80/73 * 9/5 = 4\<close>.
\<close>

theorem project_second_entry_not_accumulated:
  "build (Suc (Suc 0)) init ex_store 0 0 2 (Fin 0) = Some (Inr (), ex_model, ex_store2) \<and>
   fst (project ex_model ex_store2 (Suc 0) 2) =
     Inr (Inr ([Fin (148 / 73), Fin (217 / 73)], [Fin (3 / 5), Fin (80 / 73)],
               [fsqrt (Fin (3200 / 5329)), Fin 0])) \<and>
   fadd (fadd (Fin 1) (fmul (Fin (3 / 5)) (Fin (125 / 73)))) (fmul (Fin (80 / 73)) (Fin (9 / 5)))
     = Fin 4 \<and>
   Fin (217 / 73) \<noteq> Fin 4"
  by (simp add: ex_build ex_project)

section \<open>Fitting: number of latent variables\<close>

lemma build_body_returns:
  assumes "0 < nobj"
  shows "\<exists>l' self' s'. build_body X Y nobj nvarx SSX0 SSY0 self s l = (Inr l', self', s')
     \<and> l_a l' = l_a l + 1 \<and> (\<forall>n. lv_count self n \<longrightarrow> lv_count self' (Suc n))"
proof -
  obtain t p w c where e: "extractLV (mats s ! X) (vecs s ! Y) = (t, p, w, c)"
    by (metis prod_cases4)
  obtain SSXnew SSYnew dmodx where
    ss: "computeSS (mats (deflateLV s X Y t p c) ! X) (vecs (deflateLV s X Y t p c) ! Y)
           = (SSXnew, SSYnew, dmodx)"
    by (metis prod_cases3)
  show ?thesis using assms by (simp add: build_body_def Let_def e ss lv_count_def)
qed

lemma flt_irrefl [simp]: "\<not> flt a a"
  by (cases a) auto

lemma build_loop_targetA:
  assumes "0 < nobj"
  shows "0 \<le> l_a l \<Longrightarrow> l_a l < targetA \<Longrightarrow> nat (targetA - l_a l) \<le> fuel \<Longrightarrow> lv_count self n \<Longrightarrow>
    \<exists>l' self' s'. build_loop fuel X Y nobj nvarx SSX0 SSY0 targetA (Fin 0) self s l = Some (Inr l', self', s')
       \<and> l_a l' = targetA \<and> lv_count self' (n + nat (targetA - l_a l))"
proof (induction fuel arbitrary: l self s n)
  case 0
  then show ?case by simp
next
  case (Suc fuel)
  from build_body_returns [OF assms] obtain l1 self1 s1 where
    body: "build_body X Y nobj nvarx SSX0 SSY0 self s l = (Inr l1, self1, s1)"
    and a1: "l_a l1 = l_a l + 1"
    and cnt: "\<And>n. lv_count self n \<Longrightarrow> lv_count self1 (Suc n)"
    by blast
  have c1: "lv_count self1 (Suc n)" using cnt Suc.prems(4) by simp
  have p1: "0 \<le> l_a l1" using a1 Suc.prems(1) by simp
  show ?case
  proof (cases "l_a l1 = targetA")
    case True
    then have "nat (targetA - l_a l) = 1" using a1 by simp
    then show ?thesis using body True Suc.prems(1,2) c1 by simp
  next
    case False
    then have lt: "l_a l1 < targetA" using a1 Suc.prems(2) by simp
    have fu: "nat (targetA - l_a l1) \<le> fuel" using a1 Suc.prems(3) by simp
    from Suc.IH [OF p1 lt fu c1] obtain l' self' s' where
      "build_loop fuel X Y nobj nvarx SSX0 SSY0 targetA (Fin 0) self1 s1 l1 = Some (Inr l', self', s')"
      "l_a l' = targetA" "lv_count self' (Suc n + nat (targetA - l_a l1))"
      by blast
    moreover have "Suc n + nat (targetA - l_a l1) = n + nat (targetA - l_a l)"
      using a1 lt by simp
    ultimately have "build_loop fuel X Y nobj nvarx SSX0 SSY0 targetA (Fin 0) self1 s1 l1 = Some (Inr l', self', s')
      \<and> l_a l' = targetA \<and> lv_count self' (n + nat (targetA - l_a l))"
      by (simp only:)
    then show ?thesis using body False by simp
  qed
qed

lemma build_loop_mono:
  "build_loop fuel X Y nobj nvarx SSX0 SSY0 targetA targetSSX self s l = Some r \<Longrightarrow>
   fuel \<le> fuel' \<Longrightarrow>
   build_loop fuel' X Y nobj nvarx SSX0 SSY0 targetA targetSSX self s l = Some r"
proof (induction fuel arbitrary: fuel' self s l)
  case 0
  then show ?case by simp
next
  case (Suc fuel)
  from Suc.prems(2) obtain f where f: "fuel' = Suc f" and le: "fuel \<le> f"
    by (cases fuel') auto
  obtain o1 self1 s1 where
    body: "build_body X Y nobj nvarx SSX0 SSY0 self s l = (o1, self1, s1)"
    by (metis prod_cases3)
  show ?case
  proof (cases o1)
    case (Inl e)
    have b: "build_body X Y nobj nvarx SSX0 SSY0 self s l = (Inl e, self1, s1)"
      using body Inl by simp
    have "r = (Inl e, self1, s1)" using Suc.prems(1) by (simp add: b)
    then show ?thesis by (simp add: f b)
  next
    case (Inr l1)
    have b: "build_body X Y nobj nvarx SSX0 SSY0 self s l = (Inr l1, self1, s1)"
      using body Inr by simp
    show ?thesis
    proof (cases "(0 < targetA \<and> l_a l1 = targetA) \<or> (flt (Fin 0) targetSSX \<and> flt targetSSX (l_SSXac l1))")
      case True
      have "r = (Inr l1, self1, s1)" using Suc.prems(1) True by (auto simp add: b split: if_splits)
      then show ?thesis using True by (auto simp add: f b)
    next
      case False
      have "build_loop fuel X Y nobj nvarx SSX0 SSY0 targetA targetSSX self1 s1 l1 = Some r"
        using Suc.prems(1) False by (auto simp add: b split: if_splits)
      from Suc.IH [OF this le] show ?thesis using False by (auto simp add: f b)
    qed
  qed
qed

lemma build_loop_too_little_fuel:
  assumes "0 < nobj"
  shows "l_a l < targetA \<Longrightarrow> fuel < nat (targetA - l_a l) \<Longrightarrow>
    build_loop fuel X Y nobj nvarx SSX0 SSY0 targetA (Fin 0) self s l = None"
proof (induction fuel arbitrary: l self s)
  case 0
  then show ?case by simp
next
  case (Suc fuel)
  from build_body_returns [OF assms] obtain l1 self1 s1 where
    body: "build_body X Y nobj nvarx SSX0 SSY0 self s l = (Inr l1, self1, s1)"
    and a1: "l_a l1 = l_a l + 1"
    by blast
  have ne: "l_a l1 \<noteq> targetA" using a1 Suc.prems by simp
  have lt: "l_a l1 < targetA" using a1 Suc.prems by simp
  have fu: "fuel < nat (targetA - l_a l1)" using a1 Suc.prems by simp
  show ?case using body ne Suc.IH [OF lt fu] by simp
qed


text \<open>
  C3, as the code has it.  With no observation at all \<^verbatim>\<open>build\<close> does not return a model:
  the first pass raises \<^verbatim>\<open>ZeroDivisionError\<close> after it appended to \<open>t\<close>, \<open>p\<close>, \<open>w\<close> and
  \<open>c\<close>.
\<close>

theorem build_no_observation_raises:
  "build (Suc 0) init empty_store 0 0 1 (Fin 0) =
     Some (Inl ZeroDivisionError,
           init\<lparr>self_X := Some 0, self_Y := Some 0, self_mux := Some [NaN], self_muy := Some NaN,
                self_nvarx := 1, self_t := [[]], self_p := [[NaN]], self_w := [[NaN]],
                self_c := [NaN]\<rparr>,
           \<lparr>mats = [Matrix 1 [], Matrix 1 []], vecs = [[], []]\<rparr>)"
  by (simp add: build_def build_body_def empty_store_def init_def ev)

text \<open>
  C3, amended.  For every training array \<open>X\<close> with at least one observation, every
  response \<open>Y\<close> of that many entries and every \<open>k \<ge> 1\<close>, \<^verbatim>\<open>build(X, Y, targetA=k,
  targetSSX=0)\<close> on a new object stops after exactly \<open>k\<close> passes of its loop (fewer passes
  do not end it, \<open>k\<close> do), returns normally, and leaves \<open>Am = k\<close> and \<open>k\<close> entries in each
  of the ten per-LV lists.
\<close>

theorem build_targetA:
  assumes nobj: "0 < length (rows (mats s ! X))"
    and Y: "Y < length (vecs s)"
    and len: "length (vecs s ! Y) = length (rows (mats s ! X))"
    and k: "1 \<le> k"
  shows "\<exists>self' s'. (\<forall>fuel. build fuel init s X Y k (Fin 0) =
           (if fuel < nat k then None else Some (Inr (), self', s')))
         \<and> self_Am self' = k \<and> lv_count self' (nat k)"
proof -
  define nobj where "nobj = length (rows (mats s ! X))"
  define nvarx where "nvarx = ncols (mats s ! X)"
  define s1 where "s1 = s\<lparr>mats := mats s @ [fst (center (mats s ! X))],
                          vecs := vecs s @ [fst (center1 (vecs s ! Y))]\<rparr>"
  define self1 where "self1 = init\<lparr>self_nobj := int nobj, self_nvarx := int nvarx,
     self_X := Some X, self_Y := Some Y, self_mux := Some (snd (center (mats s ! X))),
     self_muy := Some (snd (center1 (vecs s ! Y)))\<rparr>"
  define Xa where "Xa = length (mats s)"
  define Ya where "Ya = length (vecs s)"
  define SS where "SS = computeSS (mats s1 ! Xa) (vecs s1 ! Ya)"
  define l0 where "l0 = \<lparr>l_SSXac = Fin 0, l_SSYac = Fin 0, l_SSXold = fst SS,
                          l_SSYold = fst (snd SS), l_a = 0\<rparr>"
  have c0: "lv_count self1 0" by (simp add: self1_def lv_count_def init_def)
  have pos: "0 < nobj" using nobj by (simp add: nobj_def)
  have a0: "l_a l0 < k" using k by (simp add: l0_def)
  have bd: "build fuel init s X Y k (Fin 0) =
      (case build_loop fuel Xa Ya nobj nvarx (fst SS) (fst (snd SS)) k (Fin 0) self1 s1 l0 of
         None \<Rightarrow> None
       | Some (Inl e, self, s) \<Rightarrow> Some (Inl e, self, s)
       | Some (Inr l, self, s) \<Rightarrow> Some (Inr (), self\<lparr>self_Am := l_a l\<rparr>, s))" for fuel
    using Y len
    by (simp add: build_def Let_def shape_def alloc_mat_def alloc_vec_def nth_append
        split_beta nobj_def nvarx_def s1_def self1_def Xa_def Ya_def SS_def l0_def)
  have z0: "0 \<le> l_a l0" by (simp add: l0_def)
  from build_loop_targetA [OF pos z0 a0 _ c0, of "nat k" Xa Ya nvarx "fst SS" "fst (snd SS)" s1]
  obtain l' self' s' where
    run: "build_loop (nat k) Xa Ya nobj nvarx (fst SS) (fst (snd SS)) k (Fin 0) self1 s1 l0
            = Some (Inr l', self', s')"
    and al: "l_a l' = k" and cnt: "lv_count self' (nat k)"
    by (auto simp: l0_def)
  have more: "build_loop fuel Xa Ya nobj nvarx (fst SS) (fst (snd SS)) k (Fin 0) self1 s1 l0
            = Some (Inr l', self', s')" if "nat k \<le> fuel" for fuel
    using build_loop_mono [OF run that] .
  have less: "build_loop fuel Xa Ya nobj nvarx (fst SS) (fst (snd SS)) k (Fin 0) self1 s1 l0
            = None" if "fuel < nat k" for fuel
    using build_loop_too_little_fuel [OF pos a0, of fuel Xa Ya nvarx "fst SS" "fst (snd SS)" self1 s1] that
    by (simp add: l0_def)
  have "\<forall>fuel. build fuel init s X Y k (Fin 0) =
           (if fuel < nat k then None else Some (Inr (), self'\<lparr>self_Am := k\<rparr>, s'))"
    using more less al by (simp add: bd)
  moreover have "lv_count (self'\<lparr>self_Am := k\<rparr>) (nat k)" using cnt by (simp add: lv_count_def)
  ultimately show ?thesis by (intro exI [of _ "self'\<lparr>self_Am := k\<rparr>"] exI [of _ s']) simp
qed


theorem build_targetA_witness:
  "0 < length (rows (mats ex_store ! 0)) \<and> 0 < length (vecs ex_store) \<and>
   length (vecs ex_store ! 0) = length (rows (mats ex_store ! 0)) \<and>
   (\<exists>self' s'. (\<forall>fuel. build fuel init ex_store 0 0 2 (Fin 0) =
           (if fuel < nat 2 then None else Some (Inr (), self', s')))
         \<and> self_Am self' = 2 \<and> lv_count self' (nat 2))"
proof -
  have 1: "0 < length (rows (mats ex_store ! 0))" by (simp add: ex_store_def ex_X_def)
  have 2: "0 < length (vecs ex_store)" by (simp add: ex_store_def)
  have 3: "length (vecs ex_store ! 0) = length (rows (mats ex_store ! 0))"
    by (simp add: ex_store_def ex_X_def ex_Y_def)
  have 4: "(1::int) \<le> 2" by simp
  from build_targetA [OF 1 2 3 4] 1 2 3 show ?thesis by blast
qed

section \<open>The training data stay as the caller gave them\<close>

lemma extends_refl [simp]: "extends s s"
  by (simp add: extends_def)

lemma extends_length:
  "extends s s' \<Longrightarrow> length (mats s) \<le> length (mats s') \<and> length (vecs s) \<le> length (vecs s')"
  unfolding extends_def by (metis length_take min.cobounded1)

lemma extends_trans: "extends s s' \<Longrightarrow> extends s' s'' \<Longrightarrow> extends s s''"
proof -
  assume a: "extends s s'" and b: "extends s' s''"
  from extends_length [OF a] have l: "length (mats s) \<le> length (mats s')" "length (vecs s) \<le> length (vecs s')"
    by simp_all
  have "take (length (mats s)) (mats s'') = take (length (mats s)) (take (length (mats s')) (mats s''))"
    using l by (simp add: min_def)
  also have "\<dots> = mats s" using a b by (simp add: extends_def)
  finally have 1: "take (length (mats s)) (mats s'') = mats s" .
  have "take (length (vecs s)) (vecs s'') = take (length (vecs s)) (take (length (vecs s')) (vecs s''))"
    using l by (simp add: min_def)
  also have "\<dots> = vecs s" using a b by (simp add: extends_def)
  finally have 2: "take (length (vecs s)) (vecs s'') = vecs s" .
  from 1 2 show ?thesis by (simp add: extends_def)
qed

lemma extends_nth:
  "extends s s' \<Longrightarrow> (X < length (mats s) \<longrightarrow> mats s' ! X = mats s ! X) \<and>
     (Y < length (vecs s) \<longrightarrow> vecs s' ! Y = vecs s ! Y)"
  unfolding extends_def by (metis nth_take)

lemma extends_alloc_mat: "extends s0 s \<Longrightarrow> extends s0 (fst (alloc_mat s M))"
  using extends_length [of s0 s] by (simp add: extends_def alloc_mat_def)

lemma extends_alloc_vec: "extends s0 s \<Longrightarrow> extends s0 (fst (alloc_vec s v))"
  using extends_length [of s0 s] by (simp add: extends_def alloc_vec_def)

lemma extends_mats_update:
  "extends s0 s \<Longrightarrow> length (mats s0) \<le> X \<Longrightarrow> extends s0 (s\<lparr>mats := (mats s)[X := M]\<rparr>)"
  by (simp add: extends_def)

lemma extends_vecs_update:
  "extends s0 s \<Longrightarrow> length (vecs s0) \<le> Y \<Longrightarrow> extends s0 (s\<lparr>vecs := (vecs s)[Y := v]\<rparr>)"
  by (simp add: extends_def)

lemma extends_deflate_row:
  "extends s0 s \<Longrightarrow> length (mats s0) \<le> X \<Longrightarrow> length (vecs s0) \<le> Y \<Longrightarrow>
   extends s0 (deflate_row t p c s X Y i)"
  by (simp add: deflate_row_def Let_def extends_def)

lemma extends_foldl:
  "(\<And>s i. extends s0 s \<Longrightarrow> extends s0 (f s i)) \<Longrightarrow> extends s0 s \<Longrightarrow> extends s0 (foldl f s xs)"
  by (induction xs arbitrary: s) auto

lemma extends_deflateLV:
  "extends s0 s \<Longrightarrow> length (mats s0) \<le> X \<Longrightarrow> length (vecs s0) \<le> Y \<Longrightarrow>
   extends s0 (deflateLV s X Y t p c)"
  by (simp add: deflateLV_def split_beta extends_foldl extends_deflate_row)

lemma build_body_frame:
  assumes "build_body X Y nobj nvarx SSX0 SSY0 self s l = (r, self', s')"
    and "extends s0 s" and "length (mats s0) \<le> X" and "length (vecs s0) \<le> Y"
  shows "extends s0 s' \<and> self_X self' = self_X self \<and> self_Y self' = self_Y self"
proof -
  obtain t p w c where e: "extractLV (mats s ! X) (vecs s ! Y) = (t, p, w, c)"
    by (metis prod_cases4)
  obtain SSXnew SSYnew dmodx where
    ss: "computeSS (mats (deflateLV s X Y t p c) ! X) (vecs (deflateLV s X Y t p c) ! Y)
           = (SSXnew, SSYnew, dmodx)"
    by (metis prod_cases3)
  have "extends s0 (deflateLV s X Y t p c)" using assms(2-4) by (rule extends_deflateLV)
  then show ?thesis using assms(1) by (auto simp: build_body_def Let_def e ss split: if_splits)
qed

lemma build_loop_frame:
  "build_loop fuel X Y nobj nvarx SSX0 SSY0 targetA targetSSX self s l = Some (r, self', s') \<Longrightarrow>
   extends s0 s \<Longrightarrow> length (mats s0) \<le> X \<Longrightarrow> length (vecs s0) \<le> Y \<Longrightarrow>
   extends s0 s' \<and> self_X self' = self_X self \<and> self_Y self' = self_Y self"
proof (induction fuel arbitrary: self s l)
  case 0
  then show ?case by simp
next
  case (Suc fuel)
  obtain o1 self1 s1 where
    body: "build_body X Y nobj nvarx SSX0 SSY0 self s l = (o1, self1, s1)"
    by (metis prod_cases3)
  from build_body_frame [OF body Suc.prems(2-4)]
  have f1: "extends s0 s1" "self_X self1 = self_X self" "self_Y self1 = self_Y self" by simp_all
  show ?case
  proof (cases o1)
    case (Inl e)
    with Suc.prems(1) body f1 show ?thesis by auto
  next
    case (Inr l1)
    show ?thesis
    proof (cases "(0 < targetA \<and> l_a l1 = targetA) \<or> (flt (Fin 0) targetSSX \<and> flt targetSSX (l_SSXac l1))")
      case True
      with Suc.prems(1) body Inr f1 show ?thesis by (auto split: if_splits)
    next
      case False
      with Suc.prems(1) body Inr
      have "build_loop fuel X Y nobj nvarx SSX0 SSY0 targetA targetSSX self1 s1 l1 = Some (r, self', s')"
        by (auto split: if_splits)
      from Suc.IH [OF this f1(1) Suc.prems(3,4)] f1 show ?thesis by simp
    qed
  qed
qed

lemma build_frame:
  assumes "build fuel self s X Y targetA targetSSX = Some (r, self', s')"
  shows "extends s s' \<and> self_X self' = Some X \<and> self_Y self' = Some Y"
proof -
  define s1 where "s1 = s\<lparr>mats := mats s @ [fst (center (mats s ! X))],
                          vecs := vecs s @ [fst (center1 (vecs s ! Y))]\<rparr>"
  have e1: "extends s s1" by (simp add: extends_def s1_def)
  show ?thesis
  proof (cases "length (vecs s1 ! Y) = length (rows (mats s ! X))")
    case False
    with assms e1 show ?thesis
      by (auto simp: build_def Let_def shape_def alloc_mat_def alloc_vec_def split_beta s1_def
          split: if_splits)
  next
    case True
    with assms obtain Xa Ya nobj nvarx SSX0 SSY0 self1 l0 r1 self2 where
      loop: "build_loop fuel Xa Ya nobj nvarx SSX0 SSY0 targetA targetSSX self1 s1 l0 = Some (r1, self2, s')"
      and XY: "self_X self1 = Some X" "self_Y self1 = Some Y"
      and a: "Xa = length (mats s)" "Ya = length (vecs s)"
      and eq: "self_X self' = self_X self2" "self_Y self' = self_Y self2"
      by (auto simp: build_def Let_def shape_def alloc_mat_def alloc_vec_def split_beta s1_def
          split: if_splits option.splits sum.splits)
    from build_loop_frame [OF loop e1] a XY eq have "extends s s'" "self_X self' = Some X" "self_Y self' = Some Y"
      by simp_all
    then show ?thesis by simp
  qed
qed

lemma getLOO_loop_frame:
  "extends s0 s \<Longrightarrow> length (mats s0) \<le> X \<Longrightarrow> length (vecs s0) \<le> Y \<Longrightarrow> length (vecs s0) \<le> x \<Longrightarrow>
   extends s0 (snd (getLOO_loop X Y x as s y))"
proof (induction as arbitrary: s y)
  case Nil
  then show ?case by simp
next
  case (Cons a as)
  obtain t p w c where e: "extractLV (mats s ! X) (vecs s ! Y) = (t, p, w, c)"
    by (metis prod_cases4)
  let ?s1 = "s\<lparr>vecs := (vecs s)[x := vsub (vecs s ! x) (smul (dot (vecs s ! x) w) p)]\<rparr>"
  have "extends s0 ?s1" using Cons.prems(1,4) by (rule extends_vecs_update)
  then have "extends s0 (deflateLV ?s1 X Y t p c)" using Cons.prems(2,3) by (rule extends_deflateLV)
  from Cons.IH [OF this Cons.prems(2-4)] show ?case by (simp add: e Let_def)
qed

lemma loo_fold_frame:
  assumes "extends s0 s"
  shows "extends s0 (fst (loo_fold X Y A (s, SSY) i))"
proof -
  define Xc where "Xc = fst (center (Matrix (ncols (mats s ! X)) (delete (rows (mats s ! X)) i)))"
  define muxr where "muxr = snd (center (Matrix (ncols (mats s ! X)) (delete (rows (mats s ! X)) i)))"
  define Yc where "Yc = fst (center1 (delete (vecs s ! Y) i))"
  define s1 where "s1 = fst (alloc_mat s Xc)"
  define s2 where "s2 = fst (alloc_vec s1 Yc)"
  define s3 where "s3 = fst (alloc_vec s2 (row (mats s2 ! X) i))"
  define xp where "xp = Suc (length (vecs s))"
  define s4 where "s4 = s3\<lparr>vecs := (vecs s3)[xp := vsub (vecs s3 ! xp) muxr]\<rparr>"
  define s5 where "s5 = snd (getLOO s4 (length (mats s)) (length (vecs s)) xp A)"
  have l: "length (mats s0) \<le> length (mats s)" "length (vecs s0) \<le> length (vecs s)"
    using extends_length [OF assms] by simp_all
  have "extends s0 s1" unfolding s1_def using assms by (rule extends_alloc_mat)
  then have "extends s0 s2" unfolding s2_def by (rule extends_alloc_vec)
  then have "extends s0 s3" unfolding s3_def by (rule extends_alloc_vec)
  then have "extends s0 s4" unfolding s4_def using l by (intro extends_vecs_update) (simp_all add: xp_def)
  then have "extends s0 s5" unfolding s5_def getLOO_def using l
    by (intro getLOO_loop_frame) (simp_all add: xp_def)
  moreover have "fst (loo_fold X Y A (s, SSY) i) = s5"
    by (simp add: loo_fold_def Let_def split_beta alloc_mat_def alloc_vec_def s5_def s4_def s3_def
        s2_def s1_def xp_def Xc_def Yc_def muxr_def list_update_append nth_append)
  ultimately show ?thesis by simp
qed

lemma loo_folds_frame:
  "extends s0 (fst acc) \<Longrightarrow> extends s0 (fst (foldl (loo_fold X Y A) acc is))"
proof (induction "is" arbitrary: acc)
  case Nil
  then show ?case by simp
next
  case (Cons i "is")
  obtain s SSY where acc: "acc = (s, SSY)" by (cases acc)
  from Cons.prems have "extends s0 (fst (loo_fold X Y A (s, SSY) i))"
    unfolding acc by (simp add: loo_fold_frame)
  from Cons.IH [OF this] show ?case by (simp add: acc)
qed

lemma validateLOO_frame:
  assumes "validateLOO self s A = (r, self', s')"
  shows "extends s s' \<and> self_X self' = self_X self \<and> self_Y self' = self_Y self"
proof (cases "self_X self")
  case None
  with assms show ?thesis by (simp add: validateLOO_def)
next
  case X: (Some X)
  show ?thesis
  proof (cases "self_Y self")
    case None
    with assms X show ?thesis by (simp add: validateLOO_def)
  next
    case Y: (Some Y)
    have "extends s (fst (foldl (loo_fold X Y (nat A)) (s, zeros (nat A)) [0..<length (rows (mats s ! X))]))"
      by (rule loo_folds_frame) simp
    with assms X Y show ?thesis
      by (auto simp: validateLOO_def Let_def shape_def split_beta split: if_splits)
  qed
qed

lemma validate_all_frame:
  "validate_all self s As = (self', s') \<Longrightarrow>
   extends s s' \<and> self_X self' = self_X self \<and> self_Y self' = self_Y self"
proof (induction As arbitrary: self s)
  case Nil
  then show ?case by simp
next
  case (Cons A As)
  obtain r self1 s1 where v: "validateLOO self s A = (r, self1, s1)" by (metis prod_cases3)
  from validateLOO_frame [OF v]
  have f: "extends s s1" "self_X self1 = self_X self" "self_Y self1 = self_Y self" by simp_all
  from Cons.prems v have "validate_all self1 s1 As = (self', s')" by simp
  from Cons.IH [OF this] f show ?case by (auto intro: extends_trans)
qed


text \<open>
  C9.  After \<^verbatim>\<open>build(X, Y, ...)\<close>, and after any number of \<^verbatim>\<open>validateLOO\<close> calls that
  follow it, the object still names the caller's two arrays (\<^verbatim>\<open>self.X\<close>, \<^verbatim>\<open>self.Y\<close>)
  and these hold what they held before \<^verbatim>\<open>build\<close>: centering allocates new arrays, and
  every in-place update of the fit and of each leave-one-out fold goes to an array
  allocated during the call.  Indeed no array that existed before is changed at all.
  This holds whatever the calls return, and for any object, new or not.
\<close>

theorem training_data_retained:
  assumes X: "X < length (mats s)" and Y: "Y < length (vecs s)"
    and fit: "build fuel self s X Y targetA targetSSX = Some (r, self1, s1)"
    and val: "validate_all self1 s1 As = (self2, s2)"
  shows "self_X self1 = Some X \<and> self_Y self1 = Some Y \<and>
         mats s1 ! X = mats s ! X \<and> vecs s1 ! Y = vecs s ! Y \<and>
         self_X self2 = Some X \<and> self_Y self2 = Some Y \<and>
         mats s2 ! X = mats s ! X \<and> vecs s2 ! Y = vecs s ! Y \<and>
         extends s s2"
proof -
  from build_frame [OF fit]
  have b: "extends s s1" "self_X self1 = Some X" "self_Y self1 = Some Y" by simp_all
  from validate_all_frame [OF val]
  have v: "extends s1 s2" "self_X self2 = self_X self1" "self_Y self2 = self_Y self1" by simp_all
  have e: "extends s s2" using b(1) v(1) by (rule extends_trans)
  from extends_nth [OF b(1), of X Y] X Y
  have 1: "mats s1 ! X = mats s ! X" "vecs s1 ! Y = vecs s ! Y" by simp_all
  from extends_nth [OF e, of X Y] X Y
  have 2: "mats s2 ! X = mats s ! X" "vecs s2 ! Y = vecs s ! Y" by simp_all
  show ?thesis using b v e 1 2 by simp
qed

theorem training_data_retained_witness:
  "0 < length (mats ex_store) \<and> 0 < length (vecs ex_store) \<and>
   build (Suc (Suc 0)) init ex_store 0 0 2 (Fin 0) = Some (Inr (), ex_model, ex_store2) \<and>
   (\<exists>self2 s2. validate_all ex_model ex_store2 [1, 3] = (self2, s2) \<and>
      self_X self2 = Some 0 \<and> self_Y self2 = Some 0 \<and>
      mats s2 ! 0 = ex_X \<and> vecs s2 ! 0 = ex_Y \<and> extends ex_store s2)"
proof -
  have X: "0 < length (mats ex_store)" and Y: "0 < length (vecs ex_store)"
    by (simp_all add: ex_store_def)
  obtain self2 s2 where v: "validate_all ex_model ex_store2 [1, 3] = (self2, s2)"
    by (cases "validate_all ex_model ex_store2 [1, 3]")
  from training_data_retained [OF X Y ex_build v]
  have "self_X self2 = Some 0 \<and> self_Y self2 = Some 0 \<and>
      mats s2 ! 0 = ex_X \<and> vecs s2 ! 0 = ex_Y \<and> extends ex_store s2"
    by (simp add: ex_store_def)
  with X Y v show ?thesis using ex_build by blast
qed

section \<open>Saving and loading: the round trip\<close>

lemma save_items_all:
  "list_all (\<lambda>x. x \<noteq> None) xs \<Longrightarrow> save_items xs f = (Inr (), f @ map the xs)"
  by (induction xs arbitrary: f) auto

lemma save_blocks_all:
  "(\<And>a. a \<in> set as \<Longrightarrow> list_all (\<lambda>x. x \<noteq> None) (blk a)) \<Longrightarrow>
   save_blocks blk as f = (Inr (), f @ concat (map (\<lambda>a. map the (blk a)) as))"
  by (induction as arbitrary: f) (auto simp: save_items_all)

lemma lv_block_all:
  "lv_count self n \<Longrightarrow> a < n \<Longrightarrow> list_all (\<lambda>x. x \<noteq> None) (lv_block self a)"
  by (simp add: lv_count_def lv_block_def idx_def)

lemma cv_block_all:
  "cv_count self n \<Longrightarrow> a < n \<Longrightarrow> list_all (\<lambda>x. x \<noteq> None) (cv_block self a)"
  by (simp add: cv_count_def cv_block_def idx_def)

lemma saveModel_consistent:
  assumes "consistent self"
  shows "saveModel self =
     (Inr (), header self @ concat (map (lv_items self) [0..<nat (self_Am self)])
                @ concat (map (cv_items self) [0..<nat (self_Av self)]))"
proof -
  from assms have lv: "lv_count self (nat (self_Am self))" and cv: "cv_count self (nat (self_Av self))"
    by (simp_all add: consistent_def)
  have 1: "save_blocks (lv_block self) [0..<nat (self_Am self)] (header self) =
      (Inr (), header self @ concat (map (lv_items self) [0..<nat (self_Am self)]))"
    unfolding lv_items_def by (rule save_blocks_all) (rule lv_block_all [OF lv], simp)
  have 2: "save_blocks (cv_block self) [0..<nat (self_Av self)] f =
      (Inr (), f @ concat (map (cv_items self) [0..<nat (self_Av self)]))" for f
    unfolding cv_items_def by (rule save_blocks_all) (rule cv_block_all [OF cv], simp)
  show ?thesis by (simp add: saveModel_def 1 2)
qed

lemma load_lv_block:
  assumes "lv_count m n" and "a < n"
  shows "load_items lv_readers self (lv_items m a @ f) =
     (Inr (),
      self\<lparr>self_t := self_t self @ [self_t m ! a], self_p := self_p self @ [self_p m ! a],
           self_w := self_w self @ [self_w m ! a], self_c := self_c self @ [self_c m ! a],
           self_SSXex := self_SSXex self @ [self_SSXex m ! a],
           self_SSXac := self_SSXac self @ [self_SSXac m ! a],
           self_SSYex := self_SSYex self @ [self_SSYex m ! a],
           self_SSYac := self_SSYac self @ [self_SSYac m ! a],
           self_SDEC := self_SDEC self @ [self_SDEC m ! a],
           self_dmodx := self_dmodx self @ [self_dmodx m ! a]\<rparr>, f)"
  using assms
  by (simp add: lv_items_def lv_block_def lv_readers_def idx_def lv_count_def as_vec_def as_float_def)

lemma load_lv_blocks:
  assumes "lv_count m N"
  shows "k + n \<le> N \<Longrightarrow>
     load_blocks lv_readers n self (concat (map (lv_items m) [k..<k + n]) @ f) =
     (Inr (),
      self\<lparr>self_t := self_t self @ take n (drop k (self_t m)),
           self_p := self_p self @ take n (drop k (self_p m)),
           self_w := self_w self @ take n (drop k (self_w m)),
           self_c := self_c self @ take n (drop k (self_c m)),
           self_SSXex := self_SSXex self @ take n (drop k (self_SSXex m)),
           self_SSXac := self_SSXac self @ take n (drop k (self_SSXac m)),
           self_SSYex := self_SSYex self @ take n (drop k (self_SSYex m)),
           self_SSYac := self_SSYac self @ take n (drop k (self_SSYac m)),
           self_SDEC := self_SDEC self @ take n (drop k (self_SDEC m)),
           self_dmodx := self_dmodx self @ take n (drop k (self_dmodx m))\<rparr>, f)"
proof (induction n arbitrary: self k)
  case 0
  then show ?case by simp
next
  case (Suc n)
  have kN: "k < N" using Suc.prems by simp
  have upt: "[k..<k + Suc n] = k # [Suc k..<Suc k + n]" by (simp add: upt_conv_Cons)
  have len: "k < length (self_t m)" "k < length (self_p m)" "k < length (self_w m)"
    "k < length (self_c m)" "k < length (self_SSXex m)" "k < length (self_SSXac m)"
    "k < length (self_SSYex m)" "k < length (self_SSYac m)" "k < length (self_SDEC m)"
    "k < length (self_dmodx m)"
    using assms kN by (simp_all add: lv_count_def)
  have step: "\<And>xs ys. k < length xs \<Longrightarrow> (ys @ [xs ! k]) @ take n (drop (Suc k) xs) = ys @ take (Suc n) (drop k xs)"
    by (simp add: Cons_nth_drop_Suc [symmetric])
  have le: "Suc k + n \<le> N" using Suc.prems by simp
  define self1 where "self1 =
      self\<lparr>self_t := self_t self @ [self_t m ! k], self_p := self_p self @ [self_p m ! k],
           self_w := self_w self @ [self_w m ! k], self_c := self_c self @ [self_c m ! k],
           self_SSXex := self_SSXex self @ [self_SSXex m ! k],
           self_SSXac := self_SSXac self @ [self_SSXac m ! k],
           self_SSYex := self_SSYex self @ [self_SSYex m ! k],
           self_SSYac := self_SSYac self @ [self_SSYac m ! k],
           self_SDEC := self_SDEC self @ [self_SDEC m ! k],
           self_dmodx := self_dmodx self @ [self_dmodx m ! k]\<rparr>"
  have eq1: "concat (map (lv_items m) [k..<k + Suc n]) @ f =
      lv_items m k @ (concat (map (lv_items m) [Suc k..<Suc k + n]) @ f)"
    by (simp only: upt list.map concat.simps append_assoc)
  have "load_blocks lv_readers (Suc n) self (concat (map (lv_items m) [k..<k + Suc n]) @ f) =
      load_blocks lv_readers n self1 (concat (map (lv_items m) [Suc k..<Suc k + n]) @ f)"
    by (simp only: eq1 load_blocks.simps load_lv_block [OF assms kN] prod.case sum.case self1_def)
  also have "\<dots> = (Inr (),
      self1\<lparr>self_t := self_t self1 @ take n (drop (Suc k) (self_t m)),
           self_p := self_p self1 @ take n (drop (Suc k) (self_p m)),
           self_w := self_w self1 @ take n (drop (Suc k) (self_w m)),
           self_c := self_c self1 @ take n (drop (Suc k) (self_c m)),
           self_SSXex := self_SSXex self1 @ take n (drop (Suc k) (self_SSXex m)),
           self_SSXac := self_SSXac self1 @ take n (drop (Suc k) (self_SSXac m)),
           self_SSYex := self_SSYex self1 @ take n (drop (Suc k) (self_SSYex m)),
           self_SSYac := self_SSYac self1 @ take n (drop (Suc k) (self_SSYac m)),
           self_SDEC := self_SDEC self1 @ take n (drop (Suc k) (self_SDEC m)),
           self_dmodx := self_dmodx self1 @ take n (drop (Suc k) (self_dmodx m))\<rparr>, f)"
    by (rule Suc.IH [OF le])
  also have "\<dots> = (Inr (),
      self\<lparr>self_t := self_t self @ take (Suc n) (drop k (self_t m)),
           self_p := self_p self @ take (Suc n) (drop k (self_p m)),
           self_w := self_w self @ take (Suc n) (drop k (self_w m)),
           self_c := self_c self @ take (Suc n) (drop k (self_c m)),
           self_SSXex := self_SSXex self @ take (Suc n) (drop k (self_SSXex m)),
           self_SSXac := self_SSXac self @ take (Suc n) (drop k (self_SSXac m)),
           self_SSYex := self_SSYex self @ take (Suc n) (drop k (self_SSYex m)),
           self_SSYac := self_SSYac self @ take (Suc n) (drop k (self_SSYac m)),
           self_SDEC := self_SDEC self @ take (Suc n) (drop k (self_SDEC m)),
           self_dmodx := self_dmodx self @ take (Suc n) (drop k (self_dmodx m))\<rparr>, f)"
    using len by (simp add: self1_def Cons_nth_drop_Suc [symmetric])
  finally show ?case .
qed

lemma load_cv_block:
  assumes "cv_count m n" and "a < n" and "self_SSY self = PyList v"
  shows "load_items cv_readers self (cv_items m a @ f) =
     (Inr (),
      self\<lparr>self_SSY := PyList (v @ [seq_items (self_SSY m) ! a]),
           self_SDEP := self_SDEP self @ [self_SDEP m ! a],
           self_Q2 := self_Q2 self @ [self_Q2 m ! a]\<rparr>, f)"
  using assms
  by (simp add: cv_items_def cv_block_def cv_readers_def idx_def cv_count_def as_float_def)

lemma load_cv_blocks:
  assumes "cv_count m N"
  shows "k + n \<le> N \<Longrightarrow> self_SSY self = PyList v \<Longrightarrow>
     load_blocks cv_readers n self (concat (map (cv_items m) [k..<k + n]) @ f) =
     (Inr (),
      self\<lparr>self_SSY := PyList (v @ take n (drop k (seq_items (self_SSY m)))),
           self_SDEP := self_SDEP self @ take n (drop k (self_SDEP m)),
           self_Q2 := self_Q2 self @ take n (drop k (self_Q2 m))\<rparr>, f)"
proof (induction n arbitrary: self k v)
  case 0
  then show ?case by simp
next
  case (Suc n)
  have kN: "k < N" using Suc.prems by simp
  have upt: "[k..<k + Suc n] = k # [Suc k..<Suc k + n]" by (simp add: upt_conv_Cons)
  have len: "k < length (seq_items (self_SSY m))" "k < length (self_SDEP m)" "k < length (self_Q2 m)"
    using assms kN by (simp_all add: cv_count_def)
  have le: "Suc k + n \<le> N" using Suc.prems by simp
  define self1 where "self1 =
      self\<lparr>self_SSY := PyList (v @ [seq_items (self_SSY m) ! k]),
           self_SDEP := self_SDEP self @ [self_SDEP m ! k],
           self_Q2 := self_Q2 self @ [self_Q2 m ! k]\<rparr>"
  have v1: "self_SSY self1 = PyList (v @ [seq_items (self_SSY m) ! k])" by (simp add: self1_def)
  have eq1: "concat (map (cv_items m) [k..<k + Suc n]) @ f =
      cv_items m k @ (concat (map (cv_items m) [Suc k..<Suc k + n]) @ f)"
    by (simp only: upt list.map concat.simps append_assoc)
  have "load_blocks cv_readers (Suc n) self (concat (map (cv_items m) [k..<k + Suc n]) @ f) =
      load_blocks cv_readers n self1 (concat (map (cv_items m) [Suc k..<Suc k + n]) @ f)"
    by (simp only: eq1 load_blocks.simps load_cv_block [OF assms kN Suc.prems(2)] prod.case sum.case
        self1_def)
  also have "\<dots> = (Inr (),
      self1\<lparr>self_SSY := PyList ((v @ [seq_items (self_SSY m) ! k]) @ take n (drop (Suc k) (seq_items (self_SSY m)))),
           self_SDEP := self_SDEP self1 @ take n (drop (Suc k) (self_SDEP m)),
           self_Q2 := self_Q2 self1 @ take n (drop (Suc k) (self_Q2 m))\<rparr>, f)"
    by (rule Suc.IH [OF le v1])
  also have "\<dots> = (Inr (),
      self\<lparr>self_SSY := PyList (v @ take (Suc n) (drop k (seq_items (self_SSY m)))),
           self_SDEP := self_SDEP self @ take (Suc n) (drop k (self_SDEP m)),
           self_Q2 := self_Q2 self @ take (Suc n) (drop k (self_Q2 m))\<rparr>, f)"
    using len by (simp add: self1_def Cons_nth_drop_Suc [symmetric])
  finally show ?case .
qed

lemma load_header:
  "load_items header_readers self (header m @ f) =
     (Inr (),
      self\<lparr>self_Am := self_Am m, self_Av := self_Av m, self_nobj := self_nobj m,
           self_nvarx := self_nvarx m, self_mux := self_mux m, self_muy := self_muy m\<rparr>, f)"
  by (cases "self_mux m"; cases "self_muy m")
     (simp_all add: header_def header_readers_def as_int_def)

lemma load_saved:
  assumes "consistent m"
  shows "loadModel init (header m @ concat (map (lv_items m) [0..<nat (self_Am m)])
                @ concat (map (cv_items m) [0..<nat (self_Av m)])) =
     (Inr (), m\<lparr>self_X := None, self_Y := None, self_SSY := PyList (seq_items (self_SSY m))\<rparr>, [])"
proof -
  from assms have lv: "lv_count m (nat (self_Am m))" and cv: "cv_count m (nat (self_Av m))"
    by (simp_all add: consistent_def)
  define h where "h = init\<lparr>self_Am := self_Am m, self_Av := self_Av m, self_nobj := self_nobj m,
           self_nvarx := self_nvarx m, self_mux := self_mux m, self_muy := self_muy m\<rparr>"
  define l where "l = h\<lparr>self_t := self_t h @ take (nat (self_Am m)) (drop 0 (self_t m)),
           self_p := self_p h @ take (nat (self_Am m)) (drop 0 (self_p m)),
           self_w := self_w h @ take (nat (self_Am m)) (drop 0 (self_w m)),
           self_c := self_c h @ take (nat (self_Am m)) (drop 0 (self_c m)),
           self_SSXex := self_SSXex h @ take (nat (self_Am m)) (drop 0 (self_SSXex m)),
           self_SSXac := self_SSXac h @ take (nat (self_Am m)) (drop 0 (self_SSXac m)),
           self_SSYex := self_SSYex h @ take (nat (self_Am m)) (drop 0 (self_SSYex m)),
           self_SSYac := self_SSYac h @ take (nat (self_Am m)) (drop 0 (self_SSYac m)),
           self_SDEC := self_SDEC h @ take (nat (self_Am m)) (drop 0 (self_SDEC m)),
           self_dmodx := self_dmodx h @ take (nat (self_Am m)) (drop 0 (self_dmodx m))\<rparr>"
  have hA: "self_Am h = self_Am m" "self_Av h = self_Av m" by (simp_all add: h_def)
  have lA: "self_Av l = self_Av m" "self_SSY l = PyList []" by (simp_all add: l_def h_def init_def)
  have 1: "load_items header_readers init (header m @ f) = (Inr (), h, f)" for f
    unfolding h_def by (rule load_header)
  have 2: "load_blocks lv_readers (nat (self_Am m)) h
             (concat (map (lv_items m) [0..<nat (self_Am m)]) @ f) = (Inr (), l, f)" for f
    using load_lv_blocks [OF lv, of 0 "nat (self_Am m)" h f] by (simp add: l_def)
  have 3: "load_blocks cv_readers (nat (self_Av m)) l
             (concat (map (cv_items m) [0..<nat (self_Av m)]) @ []) =
           (Inr (), l\<lparr>self_SSY := PyList ([] @ take (nat (self_Av m)) (drop 0 (seq_items (self_SSY m)))),
                self_SDEP := self_SDEP l @ take (nat (self_Av m)) (drop 0 (self_SDEP m)),
                self_Q2 := self_Q2 l @ take (nat (self_Av m)) (drop 0 (self_Q2 m))\<rparr>, [])"
    using load_cv_blocks [OF cv, of 0 "nat (self_Av m)" l "[]" "[]"] lA by simp
  have 4: "l\<lparr>self_SSY := PyList ([] @ take (nat (self_Av m)) (drop 0 (seq_items (self_SSY m)))),
                self_SDEP := self_SDEP l @ take (nat (self_Av m)) (drop 0 (self_SDEP m)),
                self_Q2 := self_Q2 l @ take (nat (self_Av m)) (drop 0 (self_Q2 m))\<rparr>
         = m\<lparr>self_X := None, self_Y := None, self_SSY := PyList (seq_items (self_SSY m))\<rparr>"
    using lv cv by (intro pls.equality) (simp_all add: l_def h_def init_def lv_count_def cv_count_def)
  show ?thesis
    unfolding loadModel_def by (simp add: 1 2 hA lA) (simp add: 3 [simplified] 4 [simplified])
qed

lemma build_body_counts:
  assumes "build_body X Y nobj nvarx SSX0 SSY0 self s l = (Inr l', self', s')"
  shows "l_a l' = l_a l + 1 \<and> (\<forall>n. lv_count self n \<longrightarrow> lv_count self' (Suc n)) \<and>
         (\<forall>n. cv_count self n \<longrightarrow> cv_count self' n) \<and> self_Av self' = self_Av self"
proof -
  obtain t p w c where e: "extractLV (mats s ! X) (vecs s ! Y) = (t, p, w, c)"
    by (metis prod_cases4)
  obtain SSXnew SSYnew dmodx where
    ss: "computeSS (mats (deflateLV s X Y t p c) ! X) (vecs (deflateLV s X Y t p c) ! Y)
           = (SSXnew, SSYnew, dmodx)"
    by (metis prod_cases3)
  show ?thesis using assms
    by (auto simp: build_body_def Let_def e ss lv_count_def cv_count_def split: if_splits)
qed

lemma build_loop_counts:
  "build_loop fuel X Y nobj nvarx SSX0 SSY0 targetA targetSSX self s l = Some (Inr l', self', s') \<Longrightarrow>
   0 \<le> l_a l \<Longrightarrow> lv_count self (nat (l_a l)) \<Longrightarrow> cv_count self n \<Longrightarrow>
   0 \<le> l_a l' \<and> lv_count self' (nat (l_a l')) \<and> cv_count self' n \<and> self_Av self' = self_Av self"
proof (induction fuel arbitrary: self s l)
  case 0
  then show ?case by simp
next
  case (Suc fuel)
  obtain o1 self1 s1 where
    body: "build_body X Y nobj nvarx SSX0 SSY0 self s l = (o1, self1, s1)"
    by (metis prod_cases3)
  show ?case
  proof (cases o1)
    case (Inl e)
    with Suc.prems(1) body show ?thesis by simp
  next
    case (Inr l1)
    from build_body_counts [OF body [unfolded Inr]] Suc.prems(2-4)
    have c1: "0 \<le> l_a l1" "lv_count self1 (nat (l_a l1))" "cv_count self1 n"
      "self_Av self1 = self_Av self"
      by (simp_all add: nat_add_distrib)
    show ?thesis
    proof (cases "(0 < targetA \<and> l_a l1 = targetA) \<or> (flt (Fin 0) targetSSX \<and> flt targetSSX (l_SSXac l1))")
      case True
      with Suc.prems(1) body Inr c1 show ?thesis by (auto split: if_splits)
    next
      case False
      with Suc.prems(1) body Inr
      have "build_loop fuel X Y nobj nvarx SSX0 SSY0 targetA targetSSX self1 s1 l1 = Some (Inr l', self', s')"
        by (auto split: if_splits)
      from Suc.IH [OF this c1(1-3)] c1(4) show ?thesis by simp
    qed
  qed
qed

lemma build_consistent:
  assumes "build fuel init s X Y targetA targetSSX = Some (Inr (), m, s')"
  shows "consistent m \<and> self_Av m = 0"
proof -
  from assms obtain Xa Ya nobj nvarx SSX0 SSY0 self1 s1 l0 l' self2 where
    loop: "build_loop fuel Xa Ya nobj nvarx SSX0 SSY0 targetA targetSSX self1 s1 l0 = Some (Inr l', self2, s')"
    and self1: "lv_count self1 0" "cv_count self1 0" "self_Av self1 = 0"
    and l0: "l_a l0 = 0"
    and m: "m = self2\<lparr>self_Am := l_a l'\<rparr>"
    by (auto simp: build_def Let_def shape_def alloc_mat_def alloc_vec_def split_beta init_def
        lv_count_def cv_count_def split: if_splits option.splits sum.splits)
  from build_loop_counts [OF loop, of 0] self1 l0
  have "0 \<le> l_a l'" "lv_count self2 (nat (l_a l'))" "cv_count self2 0" "self_Av self2 = 0"
    by simp_all
  then show ?thesis by (simp add: m consistent_def lv_count_def cv_count_def)
qed

lemma length_loo_fold: "length (snd (loo_fold X Y A (s, SSY) i)) = length SSY"
proof -
  have "length (foldl (\<lambda>SSY a. SSY[a := f SSY a]) SSY as) = length SSY" for f as
    by (induction as arbitrary: SSY) simp_all
  then show ?thesis by (simp add: loo_fold_def Let_def split_beta)
qed

lemma length_loo_folds: "length (snd (foldl (loo_fold X Y A) acc is)) = length (snd acc)"
proof (induction "is" arbitrary: acc)
  case Nil
  then show ?case by simp
next
  case (Cons i "is")
  obtain s SSY where acc: "acc = (s, SSY)" by (cases acc)
  show ?case using Cons.IH [of "loo_fold X Y A (s, SSY) i"] by (simp add: acc length_loo_fold)
qed

lemma validateLOO_Some:
  assumes "self_X self = Some X" and "self_Y self = Some Y"
  shows "validateLOO self s A =
     (if length (vecs s ! Y) < length (rows (mats s ! X)) then (Inl IndexError, self, s)
      else if A < 0 then (Inl ValueError, self, s)
      else if length (vecs s ! Y) \<noteq> length (rows (mats s ! X)) \<and> 0 < A \<and> 0 < length (rows (mats s ! X))
        then (Inl ValueError, self, s)
      else (Inr (),
        self\<lparr>self_SSY := NdArray (snd (foldl (loo_fold X Y (nat A)) (s, zeros (nat A)) [0..<length (rows (mats s ! X))])),
             self_SDEP := map (\<lambda>i. fsqrt (fdiv i (Fin (real (length (rows (mats s ! X)))))))
                (snd (foldl (loo_fold X Y (nat A)) (s, zeros (nat A)) [0..<length (rows (mats s ! X))])),
             self_Q2 := map (\<lambda>i. fsub (Fin 1) (fdiv i
                  (foldl (\<lambda>acc i. fadd acc (square (fsub (vecs s ! Y ! i) (mean (vecs s ! Y)))))
                         (Fin 0) [0..<length (rows (mats s ! X))])))
                (snd (foldl (loo_fold X Y (nat A)) (s, zeros (nat A)) [0..<length (rows (mats s ! X))])),
             self_Av := A\<rparr>,
        fst (foldl (loo_fold X Y (nat A)) (s, zeros (nat A)) [0..<length (rows (mats s ! X))])))"
  using assms by (simp add: validateLOO_def Let_def shape_def split_beta)



lemma validateLOO_cases:
  assumes X: "self_X self = Some X" and Y: "self_Y self = Some Y"
  obtains (raise) e where "validateLOO self s A = (Inl e, self, s)"
  | (ok) SSY SDEP Q2 s' where "0 \<le> A" "length SSY = nat A" "length SDEP = nat A"
      "length Q2 = nat A" "extends s s'"
      "validateLOO self s A =
         (Inr (), self\<lparr>self_SSY := NdArray SSY, self_SDEP := SDEP, self_Q2 := Q2, self_Av := A\<rparr>, s')"
proof (cases "length (vecs s ! Y) < length (rows (mats s ! X))")
  case True
  then have "validateLOO self s A = (Inl IndexError, self, s)"
    by (simp add: validateLOO_Some [OF X Y])
  then show ?thesis by (rule raise)
next
  case c1: False
  show ?thesis
  proof (cases "A < 0")
    case True
    with c1 have "validateLOO self s A = (Inl ValueError, self, s)"
      by (simp add: validateLOO_Some [OF X Y])
    then show ?thesis by (rule raise)
  next
    case c2: False
    show ?thesis
    proof (cases "length (vecs s ! Y) \<noteq> length (rows (mats s ! X)) \<and> 0 < A \<and> 0 < length (rows (mats s ! X))")
      case True
      with c1 c2 have "validateLOO self s A = (Inl ValueError, self, s)"
        by (simp only: validateLOO_Some [OF X Y] if_True if_False simp_thms)
      then show ?thesis by (rule raise)
    next
      case c3: False
      define R where "R = foldl (loo_fold X Y (nat A)) (s, zeros (nat A)) [0..<length (rows (mats s ! X))]"
      have 1: "0 \<le> A" using c2 by simp
      have 2: "length (snd R) = nat A" by (simp add: R_def length_loo_folds zeros_def)
      have 3: "extends s (fst R)" unfolding R_def by (rule loo_folds_frame) simp
      from c1 c2 c3 have "validateLOO self s A =
         (Inr (), self\<lparr>self_SSY := NdArray (snd R),
            self_SDEP := map (\<lambda>i. fsqrt (fdiv i (Fin (real (length (rows (mats s ! X))))))) (snd R),
            self_Q2 := map (\<lambda>i. fsub (Fin 1) (fdiv i
                  (foldl (\<lambda>acc i. fadd acc (square (fsub (vecs s ! Y ! i) (mean (vecs s ! Y)))))
                         (Fin 0) [0..<length (rows (mats s ! X))]))) (snd R),
            self_Av := A\<rparr>, fst R)"
        by (simp only: validateLOO_Some [OF X Y] if_True if_False simp_thms R_def)
      with 1 2 3 show ?thesis by (intro ok [of "snd R" _ _ "fst R"]) simp_all
    qed
  qed
qed


lemma validateLOO_consistent:
  assumes "validateLOO self s A = (r, self', s')" and "consistent self"
  shows "consistent self'"
proof (cases "self_X self")
  case None
  with assms show ?thesis by (simp add: validateLOO_def)
next
  case X: (Some X)
  show ?thesis
  proof (cases "self_Y self")
    case None
    with assms X show ?thesis by (simp add: validateLOO_def)
  next
    case Y: (Some Y)
    from X Y show ?thesis
    proof (cases rule: validateLOO_cases [where s = s and A = A])
      case (raise e)
      with assms show ?thesis by simp
    next
      case (ok SSY SDEP Q2 s1)
      from assms(2) have c: "0 \<le> self_Am self" "lv_count self (nat (self_Am self))"
        by (simp_all add: consistent_def)
      from ok(6) assms(1) have
        "self' = self\<lparr>self_SSY := NdArray SSY, self_SDEP := SDEP, self_Q2 := Q2, self_Av := A\<rparr>"
        by simp
      then show ?thesis using c ok(1-4) by (simp add: consistent_def lv_count_def cv_count_def)
    qed
  qed
qed

lemma validate_all_consistent:
  "validate_all self s As = (self', s') \<Longrightarrow> consistent self \<Longrightarrow> consistent self'"
proof (induction As arbitrary: self s)
  case Nil
  then show ?case by simp
next
  case (Cons A As)
  obtain r self1 s1 where v: "validateLOO self s A = (r, self1, s1)" by (metis prod_cases3)
  from validateLOO_consistent [OF v Cons.prems(2)] have c: "consistent self1" .
  from Cons.prems(1) v have "validate_all self1 s1 As = (self', s')" by simp
  from Cons.IH [OF this c] show ?case .
qed


text \<open>
  C4.  Take the model that \<^verbatim>\<open>build\<close> left in a new object when it returned normally,
  validated or not by any number of \<^verbatim>\<open>validateLOO\<close> calls.  \<^verbatim>\<open>saveModel\<close> writes the
  header, then the ten items of each of the \<open>Am\<close> latent variables, then the three items
  of each of the \<open>Av\<close> validated ones; \<^verbatim>\<open>loadModel\<close> into another new object returns
  normally, reads that file to its end, and leaves an object with every saved scalar and
  array equal to the original's: it is the original but for the training arrays, which
  are not saved (\<^verbatim>\<open>X\<close> and \<^verbatim>\<open>Y\<close> stay \<^verbatim>\<open>None\<close>), and for \<^verbatim>\<open>SSY\<close>, which holds the
  same numbers in a list.
\<close>

theorem save_load_round_trip:
  assumes fit: "build fuel init s X Y targetA targetSSX = Some (Inr (), m1, s1)"
    and val: "validate_all m1 s1 As = (m, s2)"
  shows "\<exists>f. saveModel m = (Inr (), f) \<and>
           f = header m @ concat (map (lv_items m) [0..<nat (self_Am m)])
                 @ concat (map (cv_items m) [0..<nat (self_Av m)]) \<and>
           loadModel init f =
             (Inr (), m\<lparr>self_X := None, self_Y := None,
                         self_SSY := PyList (seq_items (self_SSY m))\<rparr>, [])"
proof -
  from build_consistent [OF fit] have "consistent m1" by simp
  with val have c: "consistent m" by (rule validate_all_consistent)
  show ?thesis using saveModel_consistent [OF c] load_saved [OF c] by simp
qed

theorem save_load_round_trip_witness:
  "build (Suc (Suc 0)) init ex_store 0 0 2 (Fin 0) = Some (Inr (), ex_model, ex_store2) \<and>
   (\<exists>m s2 f. validate_all ex_model ex_store2 [3] = (m, s2) \<and>
      saveModel m = (Inr (), f) \<and>
      loadModel init f =
        (Inr (), m\<lparr>self_X := None, self_Y := None,
                    self_SSY := PyList (seq_items (self_SSY m))\<rparr>, []))"
proof -
  obtain m s2 where v: "validate_all ex_model ex_store2 [3] = (m, s2)"
    by (cases "validate_all ex_model ex_store2 [3]")
  from save_load_round_trip [OF ex_build v] v ex_build show ?thesis by blast
qed

section \<open>The number of validated latent variables\<close>

lemma validateLOO_returns:
  assumes X: "self_X self = Some X" and Y: "self_Y self = Some Y"
    and len: "length (vecs s ! Y) = length (rows (mats s ! X))" and A: "0 \<le> A"
  shows "fst (validateLOO self s A) = Inr () \<and>
         self_Av (fst (snd (validateLOO self s A))) = A \<and>
         self_Am (fst (snd (validateLOO self s A))) = self_Am self"
  using A len by (simp add: validateLOO_Some [OF X Y])

text \<open>
  C6.  The claim is the invariant \<open>Av \<le> Am\<close>, which the source states itself where it
  initialises \<^verbatim>\<open>self.Av\<close> (``Notice that Av <= Am'').  \<^verbatim>\<open>validateLOO(A)\<close> never looks at
  \<open>Am\<close>: every fold fits its own \<open>A\<close> latent variables, and the call ends with
  \<^verbatim>\<open>self.Av = A\<close>.  On the model fitted to the example data with two latent variables,
  \<^verbatim>\<open>validateLOO(3)\<close> returns normally and leaves \<open>Av = 3\<close> with \<open>Am = 2\<close>.
\<close>

theorem validateLOO_Av_exceeds_Am:
  "build (Suc (Suc 0)) init ex_store 0 0 2 (Fin 0) = Some (Inr (), ex_model, ex_store2) \<and>
   fst (validateLOO ex_model ex_store2 3) = Inr () \<and>
   self_Am (fst (snd (validateLOO ex_model ex_store2 3))) = 2 \<and>
   self_Av (fst (snd (validateLOO ex_model ex_store2 3))) = 3"
proof -
  have X: "self_X ex_model = Some 0" and Y: "self_Y ex_model = Some 0"
    by (simp_all add: ex_model_def)
  have len: "length (vecs ex_store2 ! 0) = length (rows (mats ex_store2 ! 0))"
    by (simp add: ex_store2_def ex_X_def ex_Y_def)
  have A: "(0::int) \<le> 3" by simp
  from validateLOO_returns [OF X Y len A] ex_build show ?thesis by (simp add: ex_model_def)
qed

end
